theory Spec2Isabelle
  imports Complex_Main
begin

section \<open>JavaScript helpers\<close>

text \<open>
  Numbers of the scripts are modelled as HOL numbers: indices and epoch milliseconds as
  \<^typ>\<open>int\<close>, tick values and pixel positions as \<^typ>\<open>real\<close> (the doubles of the
  run time idealised, without rounding). Where a function can meet \<^verbatim>\<open>undefined\<close>, NaN or an
  infinite value, these are values of their own in its model.
\<close>

text \<open>\<^verbatim>\<open>Array.prototype.indexOf\<close>: the first position of an element, or -1.\<close>

fun indexOf :: "'a list \<Rightarrow> 'a \<Rightarrow> int" where
  "indexOf [] a = - 1"
| "indexOf (b # bs) a =
     (if b = a then 0 else (let k = indexOf bs a in if k = - 1 then - 1 else k + 1))"

text \<open>\<^verbatim>\<open>xs.splice(k, 1)\<close> for a position \<open>k\<close> that \<open>indexOf\<close> returned (\<open>0 \<le> k\<close>).\<close>

definition splice1 :: "'a list \<Rightarrow> int \<Rightarrow> 'a list" where
  "splice1 xs k = take (nat k) xs @ drop (nat k + 1) xs"

text \<open>
  Modelled from the spec: \<^verbatim>\<open>_.range(start, stop, step)\<close> of the underscore library, which
  is not among the sources. It returns \<open>start, start + step, \<dots>\<close> up to but excluding
  \<open>stop\<close>; a step of 0 is replaced by 1, and the list has
  \<open>max (ceil ((stop - start) / step)) 0\<close> elements.
\<close>

definition range_int :: "int \<Rightarrow> int \<Rightarrow> int \<Rightarrow> int list" where
  "range_int start stop step =
     (let step' = (if step = 0 then 1 else step);
          len = max \<lceil>real_of_int (stop - start) / real_of_int step'\<rceil> 0
      in map (\<lambda>k. start + int k * step') [0..<nat len])"

definition range_real :: "real \<Rightarrow> real \<Rightarrow> real \<Rightarrow> real list" where
  "range_real start stop step =
     (let step' = (if step = 0 then 1 else step);
          len = max \<lceil>(stop - start) / step'\<rceil> 0
      in map (\<lambda>k. start + real k * step') [0..<nat len])"

text \<open>
  Modelled from the spec: \<^verbatim>\<open>d3.min\<close> and \<^verbatim>\<open>d3.max\<close> of the d3 library, which is not
  among the sources: the least and the greatest element of a non-empty array of numbers
  (the callers test the length first).
\<close>

definition d3_min :: "int list \<Rightarrow> int" where
  "d3_min xs = fold min (tl xs) (hd xs)"

definition d3_max :: "int list \<Rightarrow> int" where
  "d3_max xs = fold max (tl xs) (hd xs)"

text \<open>The modifier keys of \<^verbatim>\<open>d3.event\<close> that the click handlers read.\<close>

record click_event =
  ctrlKey :: bool
  shiftKey :: bool
  metaKey :: bool

text \<open>\<^verbatim>\<open>(list.length == 0) ? null : list\<close>, the value handed to \<^verbatim>\<open>model.set\<close>.\<close>

definition null_if_empty :: "'a list \<Rightarrow> 'a list option" where
  "null_if_empty xs = (if length xs = 0 then None else Some xs)"

text \<open>
  \<^verbatim>\<open>jQuery.extend(true, [], attr)\<close> and \<^verbatim>\<open>attr ? utils.deepCopy(attr) : []\<close>: a copy of
  the attribute, the empty list for null.
\<close>

definition copy_or_empty :: "'a list option \<Rightarrow> 'a list" where
  "copy_or_empty attr = (case attr of None \<Rightarrow> [] | Some xs \<Rightarrow> xs)"

section \<open>Bars: click selection\<close>

text \<open>
  The part of the Bars view and its model that the selection handlers read and write:
  the model attributes \<^verbatim>\<open>select_bars\<close> and \<^verbatim>\<open>idx_selected\<close> (null is \<open>None\<close>), the
  view's \<^verbatim>\<open>selected_indices\<close> and the length of \<^verbatim>\<open>model.mark_data\<close>.
\<close>

record bars =
  select_bars :: bool
  idx_selected :: "int list option"
  selected_indices :: "int list option"
  mark_data_length :: nat

text \<open>
  The local variable \<^verbatim>\<open>idx_selected\<close> of \<^verbatim>\<open>bar_click_handler\<close> when it reaches
  \<^verbatim>\<open>model.set\<close>; \<open>None\<close> is the early \<^verbatim>\<open>return\<close> (shift held on a selected bar).
\<close>

definition bar_click_selection :: "bars \<Rightarrow> click_event \<Rightarrow> int \<Rightarrow> int list option" where
  "bar_click_selection b ev index =
     (let sel = copy_or_empty (idx_selected b);
          elem_index = indexOf sel index
      in if elem_index > - 1 \<and> ctrlKey ev then Some (splice1 sel elem_index)
         else if shiftKey ev then
           (if elem_index > - 1 then None
            else
              (let min_index = (if length sel \<noteq> 0 then d3_min sel else - 1);
                   max_index = (if length sel \<noteq> 0 then d3_max sel else int (mark_data_length b));
                   sel' = (if index > max_index then sel @ range_int (max_index + 1) index 1
                           else if index < min_index then sel @ range_int (index + 1) min_index 1
                           else sel)
               in Some (sel' @ [index])))
         else if \<not> ctrlKey ev then Some ([] @ [index])
         else Some (sel @ [index]))"

definition bar_click_handler :: "bars \<Rightarrow> click_event \<Rightarrow> int \<Rightarrow> bars" where
  "bar_click_handler b ev index =
     (if select_bars b then
        (case bar_click_selection b ev index of
           None \<Rightarrow> b
         | Some sel \<Rightarrow> b\<lparr>idx_selected := null_if_empty sel, selected_indices := Some sel\<rparr>)
      else b)"

definition bars_reset_selection :: "bars \<Rightarrow> bars" where
  "bars_reset_selection b =
     (if select_bars b then b\<lparr>idx_selected := None, selected_indices := None\<rparr> else b)"

section \<open>Graph: click selection and node positions\<close>

text \<open>A scale view as the Graph mark uses it: the d3 scale function and the offset.\<close>

record scale_view =
  scale :: "real \<Rightarrow> real"
  offset :: real

text \<open>
  A node of \<^verbatim>\<open>model.mark_data\<close>: its data coordinates and the three fields that
  \<^verbatim>\<open>draw\<close> and \<^verbatim>\<open>update_position\<close> write (\<open>None\<close>: the field is absent).
\<close>

record node =
  node_x :: real
  node_y :: real
  x_px :: "real option"
  y_px :: "real option"
  fixed :: "bool option"

record graph =
  scales_x :: "scale_view option"
  scales_y :: "scale_view option"
  mark_data :: "node list"
  selected :: "int list option"
  graph_selected_indices :: "int list option"

text \<open>The two \<^verbatim>\<open>forEach\<close> callbacks shared by \<^verbatim>\<open>draw\<close> and \<^verbatim>\<open>update_position\<close>.\<close>

definition set_x_px :: "scale_view \<Rightarrow> node \<Rightarrow> node" where
  "set_x_px x_scale d = d\<lparr>x_px := Some (scale x_scale (node_x d) + offset x_scale), fixed := Some True\<rparr>"

definition set_y_px :: "scale_view \<Rightarrow> node \<Rightarrow> node" where
  "set_y_px y_scale d = d\<lparr>y_px := Some (scale y_scale (node_y d) + offset y_scale)\<rparr>"

text \<open>
  \<^verbatim>\<open>update_position\<close>, up to the restart of the force layout (d3's, not modelled), and
  the same opening statements of \<^verbatim>\<open>draw\<close>, before it rebuilds the SVG elements.
\<close>

definition update_position :: "graph \<Rightarrow> graph" where
  "update_position g =
     (let g1 = (case scales_x g of
                  None \<Rightarrow> g
                | Some x_scale \<Rightarrow> g\<lparr>mark_data := map (set_x_px x_scale) (mark_data g)\<rparr>);
          g2 = (case scales_y g1 of
                  None \<Rightarrow> g1
                | Some y_scale \<Rightarrow> g1\<lparr>mark_data := map (set_y_px y_scale) (mark_data g1)\<rparr>)
      in g2)"

definition draw :: "graph \<Rightarrow> graph" where
  "draw g =
     (let g1 = (case scales_x g of
                  None \<Rightarrow> g
                | Some x_scale \<Rightarrow> g\<lparr>mark_data := map (set_x_px x_scale) (mark_data g)\<rparr>);
          g2 = (case scales_y g1 of
                  None \<Rightarrow> g1
                | Some y_scale \<Rightarrow> g1\<lparr>mark_data := map (set_y_px y_scale) (mark_data g1)\<rparr>)
      in g2)"

text \<open>The local variable \<^verbatim>\<open>selected\<close> of \<^verbatim>\<open>click_handler\<close> when it reaches \<^verbatim>\<open>model.set\<close>.\<close>

definition click_selection :: "graph \<Rightarrow> click_event \<Rightarrow> int \<Rightarrow> int list" where
  "click_selection g ev index =
     (let sel = copy_or_empty (selected g);
          elem_index = indexOf sel index;
          accelKey = (ctrlKey ev \<or> metaKey ev)
      in if elem_index > - 1 \<and> accelKey then splice1 sel elem_index
         else if accelKey then sel @ [index]
         else [] @ [index])"

definition click_handler :: "graph \<Rightarrow> click_event \<Rightarrow> int \<Rightarrow> graph" where
  "click_handler g ev index = g\<lparr>selected := null_if_empty (click_selection g ev index)\<rparr>"

definition reset_selection :: "graph \<Rightarrow> graph" where
  "reset_selection g = g\<lparr>selected := None, graph_selected_indices := None\<rparr>"

section \<open>GraphModel: link data\<close>

text \<open>An element of \<^verbatim>\<open>link_data\<close>; the field \<^verbatim>\<open>value\<close> is named \<open>link_value\<close> here.\<close>

record 'v link =
  source :: nat
  target :: nat
  link_value :: 'v

text \<open>The link matrix has null entries (\<open>None\<close>) where two nodes are not linked.\<close>

record 'v graph_model =
  link_matrix :: "'v option list list"
  link_data :: "'v link list"

text \<open>
  The inner \<^verbatim>\<open>d.forEach(function(e, j) {...})\<close> over row \<open>i\<close>, from column \<open>j\<close> on, pushing
  onto \<^verbatim>\<open>that.link_data\<close>.
\<close>

fun row_forEach :: "nat \<Rightarrow> nat \<Rightarrow> 'v option list \<Rightarrow> 'v link list \<Rightarrow> 'v link list" where
  "row_forEach i j [] acc = acc"
| "row_forEach i j (e # es) acc =
     row_forEach i (Suc j) es
       (case e of
          None \<Rightarrow> acc
        | Some v \<Rightarrow> acc @ [\<lparr>source = i, target = j, link_value = v\<rparr>])"

text \<open>The outer \<^verbatim>\<open>link_matrix.forEach(function(d, i) {...})\<close>, from row \<open>i\<close> on.\<close>

fun matrix_forEach :: "nat \<Rightarrow> 'v option list list \<Rightarrow> 'v link list \<Rightarrow> 'v link list" where
  "matrix_forEach i [] acc = acc"
| "matrix_forEach i (d # ds) acc = matrix_forEach (Suc i) ds (row_forEach i 0 d acc)"

definition update_link_data :: "'v graph_model \<Rightarrow> 'v graph_model" where
  "update_link_data m = m\<lparr>link_data := matrix_forEach 0 (link_matrix m) []\<rparr>"

text \<open>
  The link list as the specification words it: in row-major order, one record for every
  entry of the matrix that is not null.
\<close>

definition links_of_entry :: "'v option list list \<Rightarrow> nat \<Rightarrow> nat \<Rightarrow> 'v link list" where
  "links_of_entry M i j =
     (case M ! i ! j of
        None \<Rightarrow> []
      | Some v \<Rightarrow> [\<lparr>source = i, target = j, link_value = v\<rparr>])"

definition row_major_links :: "'v option list list \<Rightarrow> 'v link list" where
  "row_major_links M =
     concat (map (\<lambda>i. concat (map (links_of_entry M i) [0..<length (M ! i)])) [0..<length M])"

section \<open>TickFormatter: date formats\<close>

text \<open>
  The tests paired with the format strings in the result of \<^verbatim>\<open>date_sc_format\<close>, one
  constructor for each function body that occurs there: \<^verbatim>\<open>d.getMilliseconds()\<close>,
  \<^verbatim>\<open>d.getSeconds()\<close>, \<^verbatim>\<open>d.getMinutes()\<close>, \<^verbatim>\<open>d.getHours()\<close>, \<^verbatim>\<open>d.getDate() !== 1\<close>,
  \<^verbatim>\<open>d.getMonth()\<close> and \<^verbatim>\<open>true\<close>.
\<close>

datatype date_test =
  GetMilliseconds | GetSeconds | GetMinutes | GetHours | DateNotFirst | GetMonth | AlwaysTrue

text \<open>
  \<^verbatim>\<open>date_sc_format(ticks)\<close> on the ticks of a date scale, each a \<^verbatim>\<open>Date\<close> given by its epoch
  milliseconds. The variable \<^verbatim>\<open>div\<close> is multiplied inside the conditions of the ladder; the
  successive values are \<open>dv1\<close> to \<open>dv6\<close>. With fewer than two ticks the difference is NaN,
  every test fails and the last branch is taken.
\<close>

definition date_sc_format :: "int list \<Rightarrow> (string \<times> date_test) list" where
  "date_sc_format ticks =
     (if length ticks < 2 then
        [(''%b %d'', DateNotFirst), (''%b %Y'', GetMonth), (''%Y'', AlwaysTrue)]
      else
        (let diff = \<bar>ticks ! 1 - ticks ! 0\<bar>;
             dv1 = (1000 :: int);
             dv2 = dv1 * 60;
             dv3 = dv2 * 60;
             dv4 = dv3 * 24;
             dv5 = dv4 * 27;
             dv6 = dv5 * 12
         in if \<lfloor>real_of_int diff / real_of_int dv1\<rfloor> = 0 then
              [(''.%L'', GetMilliseconds), ('':%S'', GetSeconds), (''%I:%M'', AlwaysTrue)]
            else if \<lfloor>real_of_int diff / real_of_int dv2\<rfloor> = 0 then
              [('':%S'', GetSeconds), (''%I:%M'', AlwaysTrue)]
            else if \<lfloor>real_of_int diff / real_of_int dv3\<rfloor> = 0 then
              [(''%I:%M'', GetMinutes), (''%I %p'', AlwaysTrue)]
            else if \<lfloor>real_of_int diff / real_of_int dv4\<rfloor> = 0 then
              [(''%I %p'', GetHours), (''%b %d'', AlwaysTrue)]
            else if \<lfloor>real_of_int diff / real_of_int dv5\<rfloor> = 0 then
              [(''%b %d'', DateNotFirst), (''%b %Y'', AlwaysTrue)]
            else if \<lfloor>real_of_int diff / real_of_int dv6\<rfloor> = 0 then
              [(''%b %d'', DateNotFirst), (''%b %Y'', AlwaysTrue)]
            else
              [(''%b %d'', DateNotFirst), (''%b %Y'', GetMonth), (''%Y'', AlwaysTrue)]))"

text \<open>
  The ladder as the specification words it: the format is chosen from the gap alone, by
  integer division by one second, one minute, one hour, one day, 27 days and 12 times 27
  days (all in milliseconds).
\<close>

definition one_second :: int where "one_second = 1000"
definition one_minute :: int where "one_minute = 60 * one_second"
definition one_hour :: int where "one_hour = 60 * one_minute"
definition one_day :: int where "one_day = 24 * one_hour"
definition month_threshold :: int where "month_threshold = 27 * one_day"
definition year_threshold :: int where "year_threshold = 12 * month_threshold"

definition month_day_format :: "(string \<times> date_test) list" where
  "month_day_format = [(''%b %d'', DateNotFirst), (''%b %Y'', AlwaysTrue)]"

definition format_for_gap :: "int \<Rightarrow> (string \<times> date_test) list" where
  "format_for_gap gap =
     (if gap div one_second = 0 then
        [(''.%L'', GetMilliseconds), ('':%S'', GetSeconds), (''%I:%M'', AlwaysTrue)]
      else if gap div one_minute = 0 then [('':%S'', GetSeconds), (''%I:%M'', AlwaysTrue)]
      else if gap div one_hour = 0 then [(''%I:%M'', GetMinutes), (''%I %p'', AlwaysTrue)]
      else if gap div one_day = 0 then [(''%I %p'', GetHours), (''%b %d'', AlwaysTrue)]
      else if gap div month_threshold = 0 then month_day_format
      else if gap div year_threshold = 0 then month_day_format
      else [(''%b %d'', DateNotFirst), (''%b %Y'', GetMonth), (''%Y'', AlwaysTrue)])"

section \<open>TickFormatter: precision of a linear scale\<close>

text \<open>\<^verbatim>\<open>_get_digits(number)\<close>.\<close>

definition get_digits :: "real \<Rightarrow> int" where
  "get_digits number = (if number = 0 then 1 else \<lfloor>log 10 \<bar>number\<bar>\<rfloor> + 1)"

text \<open>
  \<^verbatim>\<open>_linear_scale_precision(ticks)\<close> on the ticks of a linear scale; \<open>None\<close> is the
  \<^verbatim>\<open>undefined\<close> that the function returns when it falls through both guarded branches.
  With fewer than two ticks \<^verbatim>\<open>ticks[1]\<close> is undefined, the number of digits of the
  difference is NaN, and both guards fail.
\<close>

definition linear_scale_precision :: "real list \<Rightarrow> int option" where
  "linear_scale_precision ticks =
     (if length ticks < 2 then None
      else
        (let diff = \<bar>ticks ! 1 - ticks ! 0\<bar>;
             max = max \<bar>ticks ! 0\<bar> \<bar>ticks ! (length ticks - 1)\<bar>;
             max_digits = get_digits max;
             diff_digits = get_digits diff;
             precision = \<bar>max_digits - diff_digits\<bar>
         in if max_digits \<ge> 0 \<and> diff_digits > 0 then
              (if max_digits \<le> 6 then Some 0 else Some (min precision 6 + 1))
            else if diff_digits \<le> 0 then Some (min (\<bar>diff_digits\<bar> + max_digits) 6 + 1)
            else None))"

section \<open>TickFormatter: numbers and values\<close>

text \<open>
  \<^verbatim>\<open>Math.round\<close> (halves round up), the truncation towards zero that \<^verbatim>\<open>new Date(ms)\<close> and
  the remainder operator apply, and \<^verbatim>\<open>v % w\<close> itself, which takes the sign of \<open>v\<close>.
\<close>

definition js_round :: "real \<Rightarrow> int" where
  "js_round v = \<lfloor>v + 1 / 2\<rfloor>"

definition js_trunc :: "real \<Rightarrow> int" where
  "js_trunc v = (if 0 \<le> v then \<lfloor>v\<rfloor> else \<lceil>v\<rceil>)"

definition js_rem :: "real \<Rightarrow> real \<Rightarrow> real" where
  "js_rem v w = v - w * real_of_int (js_trunc (v / w))"

text \<open>
  \<^verbatim>\<open>Math.log10\<close> of a number that may be NaN (\<open>None\<close>). The result \<open>None\<close> stands for NaN
  (negative or NaN argument) and for -Infinity (argument 0): either fails every comparison
  that the remainders computed from it take part in.
\<close>

definition js_log10 :: "real option \<Rightarrow> real option" where
  "js_log10 v = (case v of None \<Rightarrow> None | Some w \<Rightarrow> if 0 < w then Some (log 10 w) else None)"

text \<open>
  The values found in domains and tick arrays: numbers, \<^verbatim>\<open>Date\<close> objects (their epoch
  milliseconds) and the labels of ordinal scales (strings, taken not to spell numbers).
\<close>

datatype jsval = Num real | Date int | Str string

datatype js_error = TypeError | RangeError

text \<open>\<^verbatim>\<open>xs[k]\<close>: \<open>None\<close> is \<^verbatim>\<open>undefined\<close>.\<close>

definition js_nth :: "'a list \<Rightarrow> int \<Rightarrow> 'a option" where
  "js_nth xs k = (if 0 \<le> k \<and> k < int (length xs) then Some (xs ! nat k) else None)"

text \<open>The conversion to a number that arithmetic applies: \<open>None\<close> is NaN.\<close>

fun to_number :: "jsval option \<Rightarrow> real option" where
  "to_number None = None"
| "to_number (Some (Num v)) = Some v"
| "to_number (Some (Date t)) = Some (real_of_int t)"
| "to_number (Some (Str s)) = None"

text \<open>
  The scale of an axis as the formatter reads it: \<^verbatim>\<open>axis_scale.model.type\<close>,
  \<^verbatim>\<open>axis_scale.scale.domain()\<close> and \<^verbatim>\<open>axis_scale.scale.ticks()\<close> (d3's choice of ticks, an
  input here); and the axis: the typed field \<^verbatim>\<open>tick_values\<close> and \<^verbatim>\<open>num_ticks\<close> (\<open>None\<close>:
  undefined or null).
\<close>

record scale_obj =
  scale_type :: string
  scale_domain :: "jsval list"
  scale_ticks :: "jsval list"

record axis =
  tick_values :: "jsval list option"
  num_ticks :: "int option"
  axis_scale :: scale_obj

section \<open>TickFormatter: get\_ticks\<close>

text \<open>
  \<^verbatim>\<open>get_ticks(data_array)\<close>, with \<^verbatim>\<open>this.num_ticks\<close> as the argument \<open>n\<close> (its caller
  \<^verbatim>\<open>set_tick_values\<close> has checked that it is neither undefined nor null). With bounds that
  are not numbers the source reaches \<^verbatim>\<open>_.range\<close> with NaN, whose \<^verbatim>\<open>Array(NaN)\<close> throws a
  RangeError; on a date scale \<^verbatim>\<open>getTime\<close> is called on both ends of the domain, a TypeError
  unless both are dates (and, the first end being overwritten by its milliseconds before
  the last is read, also when the domain has a single element).
\<close>

definition is_date_scale :: "scale_obj \<Rightarrow> bool" where
  "is_date_scale sc = (scale_type sc = ''date'' \<or> scale_type sc = ''date_color_linear'')"

definition get_time :: "jsval option \<Rightarrow> js_error + int" where
  "get_time v = (case v of Some (Date t) \<Rightarrow> Inr t | _ \<Rightarrow> Inl TypeError)"

definition get_ticks :: "axis \<Rightarrow> int \<Rightarrow> jsval list option \<Rightarrow> js_error + jsval list" where
  "get_ticks a n data_array_arg =
     (let data_array = (if scale_type (axis_scale a) = ''ordinal''
                        then Some (scale_domain (axis_scale a)) else data_array_arg)
      in if n < 2 then Inr []
         else
           (case data_array of
              Some arr \<Rightarrow>
                (if int (length arr) \<le> n then Inr arr
                 else
                   (let step = \<lfloor>real (length arr) / real_of_int (n - 1)\<rfloor>;
                        indices = range_int 0 (int (length arr)) step
                    in Inr (map (\<lambda>index. arr ! nat index) indices)))
            | None \<Rightarrow>
                (let scale_range = scale_domain (axis_scale a);
                     max_index = int (length scale_range) - 1
                 in if is_date_scale (axis_scale a) then
                      (case get_time (js_nth scale_range 0) of
                         Inl e \<Rightarrow> Inl e
                       | Inr lo \<Rightarrow>
                           (case (if max_index = 0 then Inl TypeError
                                  else get_time (js_nth scale_range max_index)) of
                              Inl e \<Rightarrow> Inl e
                            | Inr hi \<Rightarrow>
                                (let step = (real_of_int hi - real_of_int lo) / real_of_int (n - 1);
                                     max = real_of_int hi + step * 0.5;
                                     range_in_times = range_real (real_of_int lo) max step
                                 in Inr (map (\<lambda>elem. Date (js_trunc elem)) range_in_times))))
                    else
                      (case (js_nth scale_range max_index, js_nth scale_range 0) of
                         (Some (Num hi), Some (Num lo)) \<Rightarrow>
                           (let step = (hi - lo) / real_of_int (n - 1);
                                max = hi + step * 0.5
                            in Inr (map Num (range_real lo max step)))
                       | _ \<Rightarrow> Inl RangeError))))"

section \<open>TickFormatter: set\_tick\_values\<close>

text \<open>
  \<^verbatim>\<open>Math.abs(Math.log10(domain[1] / domain[0]))\<close>. A division by zero and the logarithm of
  a quotient that is not positive give an infinite value or NaN, and so is the order of
  magnitude then (the zero of a domain is taken to be +0).
\<close>

datatype magnitude = Finite real | Infinite | NotANumber

definition log_oom :: "real option \<Rightarrow> real option \<Rightarrow> magnitude" where
  "log_oom d1 d0 =
     (case (d1, d0) of
        (Some v1, Some v0) \<Rightarrow>
          (if v0 = 0 then (if 0 < v1 then Infinite else NotANumber)
           else if 0 < v1 / v0 then Finite \<bar>log 10 (v1 / v0)\<bar>
           else if v1 = 0 then Infinite
           else NotANumber)
      | _ \<Rightarrow> NotANumber)"

text \<open>\<^verbatim>\<open>oom < c\<close>: false for NaN and for Infinity.\<close>

fun oom_less :: "magnitude \<Rightarrow> real \<Rightarrow> bool" where
  "oom_less (Finite v) c = (v < c)"
| "oom_less Infinite c = False"
| "oom_less NotANumber c = False"

text \<open>\<^verbatim>\<open>Math.round(oom / 10)\<close>.\<close>

fun oom_step :: "magnitude \<Rightarrow> magnitude" where
  "oom_step (Finite v) = Finite (real_of_int (js_round (v / 10)))"
| "oom_step Infinite = Infinite"
| "oom_step NotANumber = NotANumber"

text \<open>
  The test of the first loop on one tick:
  \<^verbatim>\<open>r = Math.abs(Math.log10(t) % 1)\<close> is is_within 0.001 of 0, 1, 0.30103 or 0.69897.
\<close>

definition keep_125 :: "jsval \<Rightarrow> bool" where
  "keep_125 t =
     (case js_log10 (to_number (Some t)) of
        None \<Rightarrow> False
      | Some l \<Rightarrow>
          (let r = \<bar>js_rem l 1\<bar>
           in \<bar>r\<bar> < 0.001 \<or> \<bar>r - 1\<bar> < 0.001 \<or> \<bar>r - 0.30103\<bar> < 0.001 \<or> \<bar>r - 0.69897\<bar> < 0.001))"

text \<open>
  The test of the second loop on one tick: \<^verbatim>\<open>r = Math.abs(Math.log10(t) % s)\<close> is is_within
  0.001 of 0 or of \<open>s\<close>. A remainder by 0 or by NaN is NaN; a remainder by Infinity is the
  dividend.
\<close>

definition keep_step :: "magnitude \<Rightarrow> jsval \<Rightarrow> bool" where
  "keep_step s t =
     (case js_log10 (to_number (Some t)) of
        None \<Rightarrow> False
      | Some l \<Rightarrow>
          (case s of
             Finite sv \<Rightarrow>
               (if sv = 0 then False
                else (let r = \<bar>js_rem l sv\<bar> in \<bar>r\<bar> < 0.001 \<or> \<bar>r - sv\<bar> < 0.001))
           | Infinite \<Rightarrow> (let r = \<bar>l\<bar> in \<bar>r\<bar> < 0.001)
           | NotANumber \<Rightarrow> False))"

text \<open>
  The loop \<^verbatim>\<open>for (i = 0; i < allticks.length; i++) if (test) useticks.push(allticks[i])\<close>,
  from the current tick on.
\<close>

fun push_kept :: "(jsval \<Rightarrow> bool) \<Rightarrow> jsval list \<Rightarrow> jsval list \<Rightarrow> jsval list" where
  "push_kept keep [] useticks = useticks"
| "push_kept keep (t # ts) useticks =
     push_kept keep ts (if keep t then useticks @ [t] else useticks)"

text \<open>
  \<^verbatim>\<open>set_tick_values\<close>, up to the call of \<^verbatim>\<open>axis.tickValues\<close>: the result is the array
  handed to d3 (the choice of the tick format that follows is \<^verbatim>\<open>guess_tick_format\<close>).
\<close>

definition set_tick_values :: "axis \<Rightarrow> js_error + jsval list" where
  "set_tick_values a =
     (let sc = axis_scale a;
          explicit = (case tick_values a of None \<Rightarrow> [] | Some tv \<Rightarrow> tv)
      in if tick_values a \<noteq> None \<and> length explicit > 0 then Inr explicit
         else
           (case num_ticks a of
              Some n \<Rightarrow> get_ticks a n None
            | None \<Rightarrow>
                (if scale_type sc = ''ordinal'' then Inr (scale_domain sc)
                 else if scale_type sc = ''log'' then
                   (let allticks = scale_ticks sc;
                        oom = log_oom (to_number (js_nth (scale_domain sc) 1))
                                (to_number (js_nth (scale_domain sc) 0))
                    in if oom_less oom 2 then Inr allticks
                       else if oom_less oom 7 then Inr (push_kept keep_125 allticks [])
                       else
                         (let s = oom_step oom
                          in Inr (push_kept (keep_step s) allticks [])))
                 else Inr (scale_ticks sc))))"

text \<open>
  The adaptive choice as the specification words it, for a positive domain \<open>d0\<close>, \<open>d1\<close> and
  positive ticks: \<open>is_within r c\<close> is ``\<open>r\<close> is is_within 0.001 of \<open>c\<close>'', \<open>real_mod\<close> the
  remainder of a non-negative number by a positive one.
\<close>

definition is_within :: "real \<Rightarrow> real \<Rightarrow> bool" where
  "is_within r c = (\<bar>r - c\<bar> < 0.001)"

definition real_mod :: "real \<Rightarrow> real \<Rightarrow> real" where
  "real_mod v s = v - s * real_of_int \<lfloor>v / s\<rfloor>"

definition near_1_2_5 :: "real \<Rightarrow> bool" where
  "near_1_2_5 t =
     (let f = frac \<bar>log 10 t\<bar>
      in is_within f 0 \<or> is_within f 1 \<or> is_within f 0.30103 \<or> is_within f 0.69897)"

definition near_multiple :: "real \<Rightarrow> real \<Rightarrow> bool" where
  "near_multiple s t = (let m = real_mod \<bar>log 10 t\<bar> s in is_within m 0 \<or> is_within m s)"

definition adaptive_log_ticks :: "real \<Rightarrow> real \<Rightarrow> real list \<Rightarrow> real list" where
  "adaptive_log_ticks d0 d1 ticks =
     (let oom = \<bar>log 10 (d1 / d0)\<bar>
      in if oom < 2 then ticks
         else if oom < 7 then filter near_1_2_5 ticks
         else (let s = real_of_int (round (oom / 10)) in filter (near_multiple s) ticks))"

section \<open>TickFormatter: number formats\<close>

text \<open>
  The decimal numeral of an integer, as \<^verbatim>\<open>"." + prec\<close> spells a precision; \<open>None\<close> is
  \<^verbatim>\<open>undefined\<close>, which \<^verbatim>\<open>_linear_scale_precision\<close> may return.
\<close>

definition digit_char :: "nat \<Rightarrow> char" where
  "digit_char d = ''0123456789'' ! d"

fun digits_of_nat :: "nat \<Rightarrow> string" where
  "digits_of_nat m =
     (if m < 10 then [digit_char m] else digits_of_nat (m div 10) @ [digit_char (m mod 10)])"

declare digits_of_nat.simps [simp del]

definition string_of_int :: "int \<Rightarrow> string" where
  "string_of_int k = (if k < 0 then CHR ''-'' # digits_of_nat (nat (- k)) else digits_of_nat (nat k))"

definition js_string :: "int option \<Rightarrow> string" where
  "js_string prec = (case prec of None \<Rightarrow> ''undefined'' | Some p \<Rightarrow> string_of_int p)"

text \<open>
  Modelled from the spec: \<^verbatim>\<open>d3.format("d")\<close> of the d3 library, which is not among the
  sources, applied to an integer: ``the number rounded to an integer in d3 "d" format'' is the
  decimal numeral of that integer, with a minus sign when it is negative. The specifiers
  \<^verbatim>\<open>"g"\<close> and \<^verbatim>\<open>"e"\<close>, which print a double with a given number of digits, are not
  modelled: \<^verbatim>\<open>d3.format\<close> for them is the parameter \<open>d3_format\<close> of \<open>get_format_func\<close>.
\<close>

definition d3_format_d :: "int \<Rightarrow> string" where
  "d3_format_d k = string_of_int k"

definition is_digit :: "char \<Rightarrow> bool" where
  "is_digit c = (c \<in> set ''0123456789'')"

text \<open>
  \<^verbatim>\<open>s.replace(/(\.[0-9]*?)0+$/gi, "$1")\<close>. The pattern matches when \<open>s\<close> ends in a point
  followed by digits only, the last of them 0; the lazy group then leaves out the whole run
  of zeros at the end. Read from the end of the string: the zeros \<open>zs\<close> are not empty, and
  what is left after the digits begins with the point.
\<close>

definition strip_zeros :: "string \<Rightarrow> string" where
  "strip_zeros s =
     (let r = rev s;
          zs = takeWhile (\<lambda>c. c = CHR ''0'') r;
          rest = dropWhile is_digit r
      in if zs \<noteq> [] \<and> rest \<noteq> [] \<and> hd rest = CHR ''.''
         then rev (dropWhile (\<lambda>c. c = CHR ''0'') r) else s)"

text \<open>\<^verbatim>\<open>s.replace(/\.$/, "")\<close>.\<close>

definition strip_dot :: "string \<Rightarrow> string" where
  "strip_dot s = (if s \<noteq> [] \<and> last s = CHR ''.'' then butlast s else s)"

text \<open>\<^verbatim>\<open>_replace_trailing_zeros(str)\<close>; \<^verbatim>\<open>str.search("e")\<close> is the first position of an e, or -1.\<close>

definition replace_trailing_zeros :: "string \<Rightarrow> string" where
  "replace_trailing_zeros str =
     (let e_index = indexOf str (CHR ''e'')
      in if e_index \<noteq> - 1 then
           strip_dot (strip_zeros (take (nat e_index) str)) @ drop (nat e_index) str
         else strip_dot (strip_zeros str))"

text \<open>
  \<^verbatim>\<open>get_format_func(prec)\<close> applied to a number. The pattern \<^verbatim>\<open>/-|\.|e/gi\<close> ignores case, so
  that it removes E as well.
\<close>

definition get_format_func :: "(string \<Rightarrow> real \<Rightarrow> string) \<Rightarrow> int option \<Rightarrow> real \<Rightarrow> string" where
  "get_format_func d3_format prec number =
     (if prec = Some 0 then d3_format_d (js_round number)
      else
        (let fmt_string = (if prec = Some (- 1) then [] else ''.'' @ js_string prec);
             str = d3_format (fmt_string @ ''g'') number;
             reg_str = filter (\<lambda>c. c \<notin> set ''-.eE'') str
         in if length reg_str < 6 then replace_trailing_zeros str
            else if fmt_string = [] then
              (let new_str = d3_format (fmt_string @ ''e'') number;
                   new_str' = (if length new_str \<ge> 7 then d3_format ''.6e'' number else new_str)
               in replace_trailing_zeros new_str')
            else replace_trailing_zeros (d3_format (fmt_string @ ''e'') number)))"

text \<open>\<^verbatim>\<open>linear_sc_format(ticks)\<close>.\<close>

definition linear_sc_format :: "(string \<Rightarrow> real \<Rightarrow> string) \<Rightarrow> real list \<Rightarrow> real \<Rightarrow> string" where
  "linear_sc_format d3_format ticks = get_format_func d3_format (linear_scale_precision ticks)"

text \<open>
  A printer that returns the empty string for every specifier, to run the integer branch of
  \<open>get_format_func\<close>, which never calls its parameter.
\<close>

definition no_format :: "string \<Rightarrow> real \<Rightarrow> string" where
  "no_format spec number = []"

text \<open>
  The stripping as the specification words it, on a mantissa with integer part \<open>ip\<close> and
  fraction digits \<open>fp\<close>: the zeros that end the fraction are removed, and the point with them
  when no digit of the fraction is left.
\<close>

definition trim_fraction :: "string \<Rightarrow> string \<Rightarrow> string" where
  "trim_fraction ip fp =
     (if dropWhile (\<lambda>c. c = CHR ''0'') (rev fp) = [] then ip
      else ip @ ''.'' @ rev (dropWhile (\<lambda>c. c = CHR ''0'') (rev fp)))"

text \<open>
  The strings that d3 prints for the numbers 12 and 1234567 under the specifiers that
  \<open>get_format_func\<close> asks for with the precisions 3, 7 and -1, to run the function on them.
\<close>

definition sample_format :: "string \<Rightarrow> real \<Rightarrow> string" where
  "sample_format spec number =
     (if number = 12 \<and> spec = ''.3g'' then ''12.0''
      else if number = 1234567 \<and> spec = ''g'' then ''1234567''
      else if number = 1234567 \<and> spec = ''e'' then ''1.234567e+6''
      else if number = 1234567 \<and> spec = ''.6e'' then ''1.234567e+6''
      else if number = 1234567 \<and> spec = ''.7g'' then ''1234567''
      else if number = 1234567 \<and> spec = ''.7e'' then ''1.2345670e+6''
      else [])"

section \<open>Helper lemmas\<close>

lemma indexOf_ge: "- 1 \<le> indexOf xs a"
  by (induction xs) (auto simp: Let_def)

lemma indexOf_absent: "indexOf xs a = - 1 \<longleftrightarrow> a \<notin> set xs"
proof (induction xs)
  case Nil
  show ?case by simp
next
  case (Cons b bs)
  have "- 1 \<le> indexOf bs a" by (rule indexOf_ge)
  with Cons show ?case by (auto simp: Let_def)
qed

lemma indexOf_present: "indexOf xs a > - 1 \<longleftrightarrow> a \<in> set xs"
  using indexOf_ge [of xs a] indexOf_absent [of xs a] by linarith

lemma splice1_indexOf: "a \<in> set xs \<Longrightarrow> splice1 xs (indexOf xs a) = remove1 a xs"
proof (induction xs)
  case Nil
  then show ?case by simp
next
  case (Cons b bs)
  show ?case
  proof (cases "b = a")
    case True
    then show ?thesis by (simp add: splice1_def)
  next
    case False
    with Cons.prems have mem: "a \<in> set bs" by simp
    then have pos: "indexOf bs a > - 1" by (simp add: indexOf_present)
    then have ne: "indexOf bs a \<noteq> - 1" by linarith
    have nat_eq: "nat (indexOf bs a + 1) = Suc (nat (indexOf bs a))"
      using pos by linarith
    from Cons.IH [OF mem] have "take (nat (indexOf bs a)) bs @ drop (Suc (nat (indexOf bs a))) bs = remove1 a bs"
      by (simp add: splice1_def)
    with False ne nat_eq show ?thesis
      by (simp add: splice1_def Let_def)
  qed
qed

lemma null_if_empty_not_empty: "null_if_empty xs \<noteq> Some []"
  by (simp add: null_if_empty_def)

lemma range_int_step1: "range_int a b 1 = [a..b - 1]"
proof -
  have "map (\<lambda>k. a + int k) [0..<nat (b - a)] = [a..b - 1]"
    by (rule nth_equalityI) auto
  moreover have "nat (max (b - a) 0) = nat (b - a)"
    by simp
  ultimately show ?thesis
    by (simp add: range_int_def Let_def)
qed

lemma row_forEach_append:
  "row_forEach i j es acc =
     acc @ concat (map (\<lambda>k. case es ! k of None \<Rightarrow> [] | Some v \<Rightarrow> [\<lparr>source = i, target = j + k, link_value = v\<rparr>]) [0..<length es])"
proof (induction es arbitrary: j acc)
  case Nil
  show ?case by simp
next
  case (Cons e es)
  have shift: "[0..<length (e # es)] = 0 # map Suc [0..<length es]"
    by (simp add: upt_conv_Cons map_Suc_upt del: upt_Suc)
  show ?case
    unfolding shift
    by (cases e) (simp_all add: Cons.IH comp_def cong: option.case_cong)
qed

lemma matrix_forEach_append:
  "matrix_forEach i ds acc =
     acc @ concat (map (\<lambda>r. concat (map (\<lambda>k. case ds ! r ! k of None \<Rightarrow> []
              | Some v \<Rightarrow> [\<lparr>source = i + r, target = k, link_value = v\<rparr>]) [0..<length (ds ! r)]))
           [0..<length ds])"
proof (induction ds arbitrary: i acc)
  case Nil
  show ?case by simp
next
  case (Cons d ds)
  have shift: "[0..<length (d # ds)] = 0 # map Suc [0..<length ds]"
    by (simp add: upt_conv_Cons map_Suc_upt del: upt_Suc)
  show ?case
    unfolding shift
    by (simp add: Cons.IH row_forEach_append comp_def cong: option.case_cong)
qed

lemma d3_max_Max: "xs \<noteq> [] \<Longrightarrow> d3_max xs = Max (set xs)"
proof -
  assume "xs \<noteq> []"
  then obtain a as where xs: "xs = a # as" by (cases xs) auto
  show ?thesis unfolding xs d3_max_def using Max.set_eq_fold [of a as] by simp
qed

lemma d3_min_Min: "xs \<noteq> [] \<Longrightarrow> d3_min xs = Min (set xs)"
proof -
  assume "xs \<noteq> []"
  then obtain a as where xs: "xs = a # as" by (cases xs) auto
  show ?thesis unfolding xs d3_min_def using Min.set_eq_fold [of a as] by simp
qed

lemma click_selection_cases:
  "click_selection g ev i =
     (if ctrlKey ev \<or> metaKey ev then
        (if i \<in> set (copy_or_empty (selected g)) then remove1 i (copy_or_empty (selected g))
         else copy_or_empty (selected g) @ [i])
      else [i])"
  by (auto simp: click_selection_def Let_def indexOf_present splice1_indexOf)

lemma positions_length:
  "length (mark_data (update_position g)) = length (mark_data g)"
  by (simp add: update_position_def Let_def split: option.splits)

lemma update_position_nth:
  assumes "k < length (mark_data g)"
  shows "mark_data (update_position g) ! k =
     (let d = mark_data g ! k;
          d1 = (case scales_x g of None \<Rightarrow> d | Some x_scale \<Rightarrow> set_x_px x_scale d)
      in case scales_y g of None \<Rightarrow> d1 | Some y_scale \<Rightarrow> set_y_px y_scale d1)"
  using assms by (simp add: update_position_def Let_def split: option.splits)

lemma draw_eq_update_position: "draw g = update_position g"
  by (simp add: draw_def update_position_def)

lemma bar_click_selection_cases:
  "bar_click_selection b ev i =
     (let sel = copy_or_empty (idx_selected b) in
      if i \<in> set sel \<and> ctrlKey ev then Some (remove1 i sel)
      else if shiftKey ev then
        (if i \<in> set sel then None
         else if sel = [] then
           (if i > int (mark_data_length b) then Some ([int (mark_data_length b) + 1..i - 1] @ [i])
            else if i < - 1 then Some ([i + 1..- 2] @ [i])
            else Some [i])
         else if i > Max (set sel) then Some (sel @ [Max (set sel) + 1..i - 1] @ [i])
         else if i < Min (set sel) then Some (sel @ [i + 1..Min (set sel) - 1] @ [i])
         else Some (sel @ [i]))
      else if \<not> ctrlKey ev then Some [i]
      else Some (sel @ [i]))"
  by (simp add: bar_click_selection_def Let_def indexOf_present splice1_indexOf
      range_int_step1 d3_max_Max d3_min_Min)

section \<open>Link-matrix coercion\<close>

text \<open>
  C8. For every link matrix, \<^verbatim>\<open>update_link_data\<close> discards the previous \<^verbatim>\<open>link_data\<close> and
  rebuilds it as the row-major list holding exactly one record
  \<open>{source: i, target: j, value: e}\<close> for every entry \<open>e\<close> at row \<open>i\<close>, column \<open>j\<close> that is
  not null, and nothing for the null entries.
\<close>

theorem update_link_data_row_major:
  "link_data (update_link_data m) = row_major_links (link_matrix m)"
  by (simp add: update_link_data_def row_major_links_def links_of_entry_def [abs_def]
      matrix_forEach_append cong: option.case_cong)

section \<open>Graph node click selection\<close>

text \<open>
  C6. For every click on node \<open>i\<close>, \<^verbatim>\<open>click_handler\<close> with the accel key (ctrl or meta) held
  removes \<open>i\<close> from the selected list when it is present (the occurrence that \<open>indexOf\<close>
  found, so that \<open>i\<close> is no longer a member of a duplicate-free selection) and appends it
  when it is absent; without the accel key the selection becomes \<open>[i]\<close>. The attribute
  \<^verbatim>\<open>selected\<close> is set to the list, and to null exactly when the list is empty; a background
  click (\<^verbatim>\<open>reset_selection\<close>) sets it to null.
\<close>

theorem click_handler_selection:
  "((ctrlKey ev \<or> metaKey ev) \<and> i \<in> set (copy_or_empty (selected g)) \<longrightarrow>
      click_selection g ev i = remove1 i (copy_or_empty (selected g))) \<and>
   ((ctrlKey ev \<or> metaKey ev) \<and> i \<in> set (copy_or_empty (selected g)) \<and>
      distinct (copy_or_empty (selected g)) \<longrightarrow> i \<notin> set (click_selection g ev i)) \<and>
   ((ctrlKey ev \<or> metaKey ev) \<and> i \<notin> set (copy_or_empty (selected g)) \<longrightarrow>
      click_selection g ev i = copy_or_empty (selected g) @ [i]) \<and>
   (\<not> (ctrlKey ev \<or> metaKey ev) \<longrightarrow> click_selection g ev i = [i]) \<and>
   selected (click_handler g ev i) =
     (if click_selection g ev i = [] then None else Some (click_selection g ev i)) \<and>
   (selected (click_handler g ev i) = None \<longleftrightarrow> click_selection g ev i = []) \<and>
   selected (reset_selection g) = None"
  by (simp add: click_selection_cases click_handler_def reset_selection_def null_if_empty_def)

theorem click_handler_selection_witness:
  "click_selection \<lparr>scales_x = None, scales_y = None, mark_data = [], selected = Some [1, 2, 3],
       graph_selected_indices = None\<rparr> \<lparr>ctrlKey = True, shiftKey = False, metaKey = False\<rparr> 2 = [1, 3] \<and>
   click_selection \<lparr>scales_x = None, scales_y = None, mark_data = [], selected = Some [1, 2, 3],
       graph_selected_indices = None\<rparr> \<lparr>ctrlKey = False, shiftKey = False, metaKey = True\<rparr> 5 = [1, 2, 3, 5] \<and>
   click_selection \<lparr>scales_x = None, scales_y = None, mark_data = [], selected = Some [1, 2, 3],
       graph_selected_indices = None\<rparr> \<lparr>ctrlKey = False, shiftKey = True, metaKey = False\<rparr> 2 = [2] \<and>
   selected (click_handler \<lparr>scales_x = None, scales_y = None, mark_data = [], selected = Some [2],
       graph_selected_indices = None\<rparr> \<lparr>ctrlKey = True, shiftKey = False, metaKey = False\<rparr> 2) = None"
  using
    click_handler_selection [of "\<lparr>ctrlKey = True, shiftKey = False, metaKey = False\<rparr>" 2
      "\<lparr>scales_x = None, scales_y = None, mark_data = [], selected = Some [1, 2, 3],
        graph_selected_indices = None\<rparr>"]
    click_handler_selection [of "\<lparr>ctrlKey = False, shiftKey = False, metaKey = True\<rparr>" 5
      "\<lparr>scales_x = None, scales_y = None, mark_data = [], selected = Some [1, 2, 3],
        graph_selected_indices = None\<rparr>"]
    click_handler_selection [of "\<lparr>ctrlKey = False, shiftKey = True, metaKey = False\<rparr>" 2
      "\<lparr>scales_x = None, scales_y = None, mark_data = [], selected = Some [1, 2, 3],
        graph_selected_indices = None\<rparr>"]
    click_handler_selection [of "\<lparr>ctrlKey = True, shiftKey = False, metaKey = False\<rparr>" 2
      "\<lparr>scales_x = None, scales_y = None, mark_data = [], selected = Some [2],
        graph_selected_indices = None\<rparr>"]
  by (simp add: copy_or_empty_def)

section \<open>Node pinning\<close>

text \<open>
  C7. Whenever the Graph mark has an x scale view, \<^verbatim>\<open>draw\<close> and \<^verbatim>\<open>update_position\<close> set
  \<open>x_px\<close> of every node to \<open>x_scale.scale(d.x) + x_scale.offset\<close> and its \<open>fixed\<close> flag to
  true; whenever it has a y scale view they set \<open>y_px\<close> to \<open>y_scale.scale(d.y) + y_scale.offset\<close>;
  without an x scale view (so also when only a y scale exists) they leave \<open>fixed\<close> and
  \<open>x_px\<close> of every node as they were. The node list keeps its length.
\<close>

theorem node_pinning:
  assumes "k < length (mark_data g)"
  shows "length (mark_data (draw g)) = length (mark_data g) \<and>
     length (mark_data (update_position g)) = length (mark_data g) \<and>
     (\<forall>x_scale. scales_x g = Some x_scale \<longrightarrow>
        x_px (mark_data (draw g) ! k) = Some (scale x_scale (node_x (mark_data g ! k)) + offset x_scale) \<and>
        fixed (mark_data (draw g) ! k) = Some True \<and>
        x_px (mark_data (update_position g) ! k) = Some (scale x_scale (node_x (mark_data g ! k)) + offset x_scale) \<and>
        fixed (mark_data (update_position g) ! k) = Some True) \<and>
     (\<forall>y_scale. scales_y g = Some y_scale \<longrightarrow>
        y_px (mark_data (draw g) ! k) = Some (scale y_scale (node_y (mark_data g ! k)) + offset y_scale) \<and>
        y_px (mark_data (update_position g) ! k) = Some (scale y_scale (node_y (mark_data g ! k)) + offset y_scale)) \<and>
     (scales_x g = None \<longrightarrow>
        fixed (mark_data (draw g) ! k) = fixed (mark_data g ! k) \<and>
        fixed (mark_data (update_position g) ! k) = fixed (mark_data g ! k) \<and>
        x_px (mark_data (draw g) ! k) = x_px (mark_data g ! k) \<and>
        x_px (mark_data (update_position g) ! k) = x_px (mark_data g ! k))"
  using assms
  by (auto simp: draw_eq_update_position positions_length update_position_nth Let_def
      set_x_px_def set_y_px_def split: option.splits)


theorem node_pinning_witness:
  "x_px (mark_data (draw \<lparr>scales_x = Some \<lparr>scale = (\<lambda>v. 2 * v), offset = 1\<rparr>, scales_y = None,
       mark_data = [\<lparr>node_x = 3, node_y = 4, x_px = None, y_px = None, fixed = None\<rparr>],
       selected = None, graph_selected_indices = None\<rparr>) ! 0) = Some 7 \<and>
   fixed (mark_data (update_position \<lparr>scales_x = Some \<lparr>scale = (\<lambda>v. 2 * v), offset = 1\<rparr>, scales_y = None,
       mark_data = [\<lparr>node_x = 3, node_y = 4, x_px = None, y_px = None, fixed = None\<rparr>],
       selected = None, graph_selected_indices = None\<rparr>) ! 0) = Some True \<and>
   y_px (mark_data (draw \<lparr>scales_x = None, scales_y = Some \<lparr>scale = (\<lambda>v. 10 - v), offset = 5\<rparr>,
       mark_data = [\<lparr>node_x = 3, node_y = 4, x_px = None, y_px = None, fixed = None\<rparr>],
       selected = None, graph_selected_indices = None\<rparr>) ! 0) = Some 11 \<and>
   fixed (mark_data (update_position \<lparr>scales_x = None, scales_y = Some \<lparr>scale = (\<lambda>v. 10 - v), offset = 5\<rparr>,
       mark_data = [\<lparr>node_x = 3, node_y = 4, x_px = None, y_px = None, fixed = None\<rparr>],
       selected = None, graph_selected_indices = None\<rparr>) ! 0) = None"
  using
    node_pinning [of 0 "\<lparr>scales_x = Some \<lparr>scale = (\<lambda>v. 2 * v), offset = 1\<rparr>, scales_y = None,
       mark_data = [\<lparr>node_x = 3, node_y = 4, x_px = None, y_px = None, fixed = None\<rparr>],
       selected = None, graph_selected_indices = None\<rparr>"]
    node_pinning [of 0 "\<lparr>scales_x = None, scales_y = Some \<lparr>scale = (\<lambda>v. 10 - v), offset = 5\<rparr>,
       mark_data = [\<lparr>node_x = 3, node_y = 4, x_px = None, y_px = None, fixed = None\<rparr>],
       selected = None, graph_selected_indices = None\<rparr>"]
  by simp

section \<open>Bar click selection\<close>

text \<open>
  C2. For every click on bar \<open>i\<close> with \<^verbatim>\<open>select_bars\<close> enabled, \<^verbatim>\<open>bar_click_handler\<close> moves
  the selection list as follows, the cases read in the order of the handler: with ctrl held
  on a selected bar, \<open>i\<close> is removed (the occurrence that \<open>indexOf\<close> found); with shift held
  (and the first case not taken) on a selected bar, the handler returns and nothing changes;
  with shift held on an unselected bar, the indices strictly between the extreme of the
  selection (the maximum when \<open>i\<close> is above it, the minimum when below) and \<open>i\<close> are appended
  in increasing order, then \<open>i\<close> (and \<open>i\<close> alone when it lies between the extremes, or when the
  selection is empty and \<open>i\<close> is a bar index); with neither key held the list becomes \<open>[i]\<close>.
  The model attribute is the list, and null exactly when the list is empty.
\<close>

theorem bar_click_handler_bookkeeping:
  assumes "select_bars b"
  shows
   "(ctrlKey ev \<and> i \<in> set (copy_or_empty (idx_selected b)) \<longrightarrow>
       bar_click_selection b ev i = Some (remove1 i (copy_or_empty (idx_selected b)))) \<and>
    (shiftKey ev \<and> \<not> ctrlKey ev \<and> i \<in> set (copy_or_empty (idx_selected b)) \<longrightarrow>
       bar_click_handler b ev i = b) \<and>
    (shiftKey ev \<and> i \<notin> set (copy_or_empty (idx_selected b)) \<and> copy_or_empty (idx_selected b) \<noteq> [] \<and>
       i > Max (set (copy_or_empty (idx_selected b))) \<longrightarrow>
       bar_click_selection b ev i =
         Some (copy_or_empty (idx_selected b) @ [Max (set (copy_or_empty (idx_selected b))) + 1..i - 1] @ [i])) \<and>
    (shiftKey ev \<and> i \<notin> set (copy_or_empty (idx_selected b)) \<and> copy_or_empty (idx_selected b) \<noteq> [] \<and>
       i < Min (set (copy_or_empty (idx_selected b))) \<longrightarrow>
       bar_click_selection b ev i =
         Some (copy_or_empty (idx_selected b) @ [i + 1..Min (set (copy_or_empty (idx_selected b))) - 1] @ [i])) \<and>
    (shiftKey ev \<and> i \<notin> set (copy_or_empty (idx_selected b)) \<and> copy_or_empty (idx_selected b) \<noteq> [] \<and>
       Min (set (copy_or_empty (idx_selected b))) \<le> i \<and> i \<le> Max (set (copy_or_empty (idx_selected b))) \<longrightarrow>
       bar_click_selection b ev i = Some (copy_or_empty (idx_selected b) @ [i])) \<and>
    (shiftKey ev \<and> copy_or_empty (idx_selected b) = [] \<and> 0 \<le> i \<and> i < int (mark_data_length b) \<longrightarrow>
       bar_click_selection b ev i = Some [i]) \<and>
    (\<not> ctrlKey ev \<and> \<not> shiftKey ev \<longrightarrow> bar_click_selection b ev i = Some [i]) \<and>
    (\<forall>sel. bar_click_selection b ev i = Some sel \<longrightarrow>
       idx_selected (bar_click_handler b ev i) = (if sel = [] then None else Some sel)) \<and>
    (idx_selected (bar_click_handler b ev i) = None \<longleftrightarrow> bar_click_selection b ev i = Some [])"
proof -
  have early: "idx_selected b \<noteq> None" if "i \<in> set (copy_or_empty (idx_selected b))"
    using that by (cases "idx_selected b") (auto simp: copy_or_empty_def)
  have mm: "Min (set (copy_or_empty (idx_selected b))) \<le> Max (set (copy_or_empty (idx_selected b)))"
    if "copy_or_empty (idx_selected b) \<noteq> []"
    using that by (simp add: Min_le_iff)
  have both: "\<not> (i > Max (set (copy_or_empty (idx_selected b))) \<and> i < Min (set (copy_or_empty (idx_selected b))))"
    if "copy_or_empty (idx_selected b) \<noteq> []"
    using mm [OF that] by linarith
  show ?thesis
    using assms early both
    by (auto simp: bar_click_selection_cases bar_click_handler_def Let_def null_if_empty_def
        split: option.splits)
qed

theorem bar_click_handler_bookkeeping_witness:
  "bar_click_selection \<lparr>select_bars = True, idx_selected = Some [3, 4], selected_indices = None,
       mark_data_length = 10\<rparr> \<lparr>ctrlKey = True, shiftKey = False, metaKey = False\<rparr> 3 = Some [4] \<and>
   bar_click_handler \<lparr>select_bars = True, idx_selected = Some [3, 4], selected_indices = None,
       mark_data_length = 10\<rparr> \<lparr>ctrlKey = False, shiftKey = True, metaKey = False\<rparr> 4 =
     \<lparr>select_bars = True, idx_selected = Some [3, 4], selected_indices = None, mark_data_length = 10\<rparr> \<and>
   bar_click_selection \<lparr>select_bars = True, idx_selected = Some [3, 4], selected_indices = None,
       mark_data_length = 10\<rparr> \<lparr>ctrlKey = False, shiftKey = True, metaKey = False\<rparr> 7 = Some [3, 4, 5, 6, 7] \<and>
   bar_click_selection \<lparr>select_bars = True, idx_selected = Some [6, 7], selected_indices = None,
       mark_data_length = 10\<rparr> \<lparr>ctrlKey = False, shiftKey = True, metaKey = False\<rparr> 3 = Some [6, 7, 4, 5, 3] \<and>
   bar_click_selection \<lparr>select_bars = True, idx_selected = Some [2, 5], selected_indices = None,
       mark_data_length = 10\<rparr> \<lparr>ctrlKey = False, shiftKey = True, metaKey = False\<rparr> 3 = Some [2, 5, 3] \<and>
   bar_click_selection \<lparr>select_bars = True, idx_selected = None, selected_indices = None,
       mark_data_length = 10\<rparr> \<lparr>ctrlKey = False, shiftKey = True, metaKey = False\<rparr> 2 = Some [2] \<and>
   bar_click_selection \<lparr>select_bars = True, idx_selected = Some [3, 4], selected_indices = None,
       mark_data_length = 10\<rparr> \<lparr>ctrlKey = False, shiftKey = False, metaKey = False\<rparr> 8 = Some [8] \<and>
   idx_selected (bar_click_handler \<lparr>select_bars = True, idx_selected = Some [3], selected_indices = None,
       mark_data_length = 10\<rparr> \<lparr>ctrlKey = True, shiftKey = False, metaKey = False\<rparr> 3) = None"
proof (intro conjI)
  show "bar_click_selection \<lparr>select_bars = True, idx_selected = Some [3, 4], selected_indices = None,
       mark_data_length = 10\<rparr> \<lparr>ctrlKey = True, shiftKey = False, metaKey = False\<rparr> 3 = Some [4]"
    using bar_click_handler_bookkeeping [of "\<lparr>select_bars = True, idx_selected = Some [3, 4],
       selected_indices = None, mark_data_length = 10\<rparr>"
       "\<lparr>ctrlKey = True, shiftKey = False, metaKey = False\<rparr>" 3]
    by (simp add: copy_or_empty_def)
  show "bar_click_handler \<lparr>select_bars = True, idx_selected = Some [3, 4], selected_indices = None,
       mark_data_length = 10\<rparr> \<lparr>ctrlKey = False, shiftKey = True, metaKey = False\<rparr> 4 =
     \<lparr>select_bars = True, idx_selected = Some [3, 4], selected_indices = None, mark_data_length = 10\<rparr>"
    using bar_click_handler_bookkeeping [of "\<lparr>select_bars = True, idx_selected = Some [3, 4],
       selected_indices = None, mark_data_length = 10\<rparr>"
       "\<lparr>ctrlKey = False, shiftKey = True, metaKey = False\<rparr>" 4]
    by (simp add: copy_or_empty_def)
  show "bar_click_selection \<lparr>select_bars = True, idx_selected = Some [3, 4], selected_indices = None,
       mark_data_length = 10\<rparr> \<lparr>ctrlKey = False, shiftKey = True, metaKey = False\<rparr> 7 = Some [3, 4, 5, 6, 7]"
    using bar_click_handler_bookkeeping [of "\<lparr>select_bars = True, idx_selected = Some [3, 4],
       selected_indices = None, mark_data_length = 10\<rparr>"
       "\<lparr>ctrlKey = False, shiftKey = True, metaKey = False\<rparr>" 7]
    by (simp add: copy_or_empty_def)
  show "bar_click_selection \<lparr>select_bars = True, idx_selected = Some [6, 7], selected_indices = None,
       mark_data_length = 10\<rparr> \<lparr>ctrlKey = False, shiftKey = True, metaKey = False\<rparr> 3 = Some [6, 7, 4, 5, 3]"
    using bar_click_handler_bookkeeping [of "\<lparr>select_bars = True, idx_selected = Some [6, 7],
       selected_indices = None, mark_data_length = 10\<rparr>"
       "\<lparr>ctrlKey = False, shiftKey = True, metaKey = False\<rparr>" 3]
    by (simp add: copy_or_empty_def)
  show "bar_click_selection \<lparr>select_bars = True, idx_selected = Some [2, 5], selected_indices = None,
       mark_data_length = 10\<rparr> \<lparr>ctrlKey = False, shiftKey = True, metaKey = False\<rparr> 3 = Some [2, 5, 3]"
    using bar_click_handler_bookkeeping [of "\<lparr>select_bars = True, idx_selected = Some [2, 5],
       selected_indices = None, mark_data_length = 10\<rparr>"
       "\<lparr>ctrlKey = False, shiftKey = True, metaKey = False\<rparr>" 3]
    by (simp add: copy_or_empty_def)
  show "bar_click_selection \<lparr>select_bars = True, idx_selected = None, selected_indices = None,
       mark_data_length = 10\<rparr> \<lparr>ctrlKey = False, shiftKey = True, metaKey = False\<rparr> 2 = Some [2]"
    using bar_click_handler_bookkeeping [of "\<lparr>select_bars = True, idx_selected = None,
       selected_indices = None, mark_data_length = 10\<rparr>"
       "\<lparr>ctrlKey = False, shiftKey = True, metaKey = False\<rparr>" 2]
    by (simp add: copy_or_empty_def)
  show "bar_click_selection \<lparr>select_bars = True, idx_selected = Some [3, 4], selected_indices = None,
       mark_data_length = 10\<rparr> \<lparr>ctrlKey = False, shiftKey = False, metaKey = False\<rparr> 8 = Some [8]"
    using bar_click_handler_bookkeeping [of "\<lparr>select_bars = True, idx_selected = Some [3, 4],
       selected_indices = None, mark_data_length = 10\<rparr>"
       "\<lparr>ctrlKey = False, shiftKey = False, metaKey = False\<rparr>" 8]
    by (simp add: copy_or_empty_def)
  show "idx_selected (bar_click_handler \<lparr>select_bars = True, idx_selected = Some [3], selected_indices = None,
       mark_data_length = 10\<rparr> \<lparr>ctrlKey = True, shiftKey = False, metaKey = False\<rparr> 3) = None"
    using bar_click_handler_bookkeeping [of "\<lparr>select_bars = True, idx_selected = Some [3],
       selected_indices = None, mark_data_length = 10\<rparr>"
       "\<lparr>ctrlKey = True, shiftKey = False, metaKey = False\<rparr>" 3]
    by (simp add: copy_or_empty_def)
qed

section \<open>The selection attributes are null or non-empty\<close>

text \<open>
  C10, as amended. After every bar click and every background-click reset with
  \<^verbatim>\<open>select_bars\<close> enabled, the attribute \<^verbatim>\<open>idx_selected\<close> of the Bars model is null or a
  non-empty list (null after a reset); with \<^verbatim>\<open>select_bars\<close> disabled both handlers leave
  the Bars state untouched, so that a null or non-empty \<^verbatim>\<open>idx_selected\<close> stays so; and after
  every node click and every background-click reset of the Graph, \<^verbatim>\<open>selected\<close> is null or a
  non-empty list (null after a reset).
\<close>

theorem selection_attribute_null_or_nonempty:
  "(select_bars b \<longrightarrow>
      idx_selected (bar_click_handler b ev i) \<noteq> Some [] \<and>
      idx_selected (bars_reset_selection b) = None) \<and>
   (\<not> select_bars b \<longrightarrow> bar_click_handler b ev i = b \<and> bars_reset_selection b = b) \<and>
   (idx_selected b \<noteq> Some [] \<longrightarrow>
      idx_selected (bar_click_handler b ev i) \<noteq> Some [] \<and>
      idx_selected (bars_reset_selection b) \<noteq> Some []) \<and>
   selected (click_handler g ev i) \<noteq> Some [] \<and>
   selected (reset_selection g) = None"
proof -
  have early: "idx_selected b \<noteq> Some []" if "bar_click_selection b ev i = None"
  proof
    assume "idx_selected b = Some []"
    then have "copy_or_empty (idx_selected b) = []" by (simp add: copy_or_empty_def)
    with that show False
      by (simp add: bar_click_selection_cases Let_def split: if_splits)
  qed
  have click: "idx_selected (bar_click_handler b ev i) \<noteq> Some []" if "select_bars b"
    using that early
    by (cases "bar_click_selection b ev i")
       (simp_all add: bar_click_handler_def null_if_empty_not_empty)
  have keep: "bar_click_handler b ev i = b" "bars_reset_selection b = b" if "\<not> select_bars b"
    using that by (simp_all add: bar_click_handler_def bars_reset_selection_def)
  have reset: "idx_selected (bars_reset_selection b) = None" if "select_bars b"
    using that by (simp add: bars_reset_selection_def)
  have graph: "selected (click_handler g ev i) \<noteq> Some []" "selected (reset_selection g) = None"
    by (simp_all add: click_handler_def reset_selection_def null_if_empty_not_empty)
  show ?thesis
    using click keep reset graph by (cases "select_bars b") auto
qed

theorem selection_attribute_null_or_nonempty_witness:
  "idx_selected (bar_click_handler \<lparr>select_bars = True, idx_selected = Some [], selected_indices = None,
       mark_data_length = 10\<rparr> \<lparr>ctrlKey = True, shiftKey = False, metaKey = False\<rparr> 3) \<noteq> Some [] \<and>
   idx_selected (bars_reset_selection \<lparr>select_bars = True, idx_selected = Some [], selected_indices = None,
       mark_data_length = 10\<rparr>) = None \<and>
   bar_click_handler \<lparr>select_bars = False, idx_selected = Some [2], selected_indices = None,
       mark_data_length = 10\<rparr> \<lparr>ctrlKey = True, shiftKey = False, metaKey = False\<rparr> 2 =
     \<lparr>select_bars = False, idx_selected = Some [2], selected_indices = None, mark_data_length = 10\<rparr> \<and>
   idx_selected (bars_reset_selection \<lparr>select_bars = False, idx_selected = Some [2], selected_indices = None,
       mark_data_length = 10\<rparr>) \<noteq> Some []"
  using
    selection_attribute_null_or_nonempty [of "\<lparr>select_bars = True, idx_selected = Some [],
       selected_indices = None, mark_data_length = 10\<rparr>"
       "\<lparr>ctrlKey = True, shiftKey = False, metaKey = False\<rparr>" 3]
    selection_attribute_null_or_nonempty [of "\<lparr>select_bars = False, idx_selected = Some [2],
       selected_indices = None, mark_data_length = 10\<rparr>"
       "\<lparr>ctrlKey = True, shiftKey = False, metaKey = False\<rparr>" 2]
  by simp

text \<open>
  The claim as stated fails where the guard \<^verbatim>\<open>if (this.model.get("select_bars"))\<close> skips the
  handler: an empty list set on the model stays an empty list after a bar click and after a
  background click.
\<close>

theorem selection_attribute_empty_counterexample:
  "idx_selected (bar_click_handler \<lparr>select_bars = False, idx_selected = Some [], selected_indices = None,
       mark_data_length = 10\<rparr> \<lparr>ctrlKey = False, shiftKey = False, metaKey = False\<rparr> 2) = Some [] \<and>
   idx_selected (bars_reset_selection \<lparr>select_bars = False, idx_selected = Some [], selected_indices = None,
       mark_data_length = 10\<rparr>) = Some []"
  by (simp add: bar_click_handler_def bars_reset_selection_def)

section \<open>Date tick formats\<close>

lemma date_sc_format_ladder:
  assumes "2 \<le> length ticks"
  shows "date_sc_format ticks = format_for_gap \<bar>ticks ! 1 - ticks ! 0\<bar>"
proof -
  have len: "\<not> length ticks < 2" using assms by simp
  have fl: "\<lfloor>real_of_int a / real_of_int b\<rfloor> = a div b" for a b :: int
    by (simp add: floor_divide_of_int_eq)
  have c: "(1000::int) * 60 = 60 * 1000" "(60::int) * 1000 * 60 = 60 * (60 * 1000)"
    "(60::int) * (60 * 1000) * 24 = 24 * (60 * (60 * 1000))"
    "(24::int) * (60 * (60 * 1000)) * 27 = 27 * (24 * (60 * (60 * 1000)))"
    "(27::int) * (24 * (60 * (60 * 1000))) * 12 = 12 * (27 * (24 * (60 * (60 * 1000))))"
    by simp_all
  show ?thesis
    unfolding date_sc_format_def format_for_gap_def Let_def month_day_format_def
      one_second_def one_minute_def one_hour_def one_day_def month_threshold_def
      year_threshold_def fl if_not_P [OF len] c
    by (rule refl)
qed


lemma gap_div_zero:
  fixes g b :: int
  assumes "0 \<le> g" "0 < b"
  shows "g div b = 0 \<longleftrightarrow> g < b"
  using assms by (auto simp: zdiv_eq_0_iff)

lemma format_for_gap_less:
  assumes "0 \<le> gap"
  shows "format_for_gap gap =
     (if gap < 1000 then
        [(''.%L'', GetMilliseconds), ('':%S'', GetSeconds), (''%I:%M'', AlwaysTrue)]
      else if gap < 60000 then [('':%S'', GetSeconds), (''%I:%M'', AlwaysTrue)]
      else if gap < 3600000 then [(''%I:%M'', GetMinutes), (''%I %p'', AlwaysTrue)]
      else if gap < 86400000 then [(''%I %p'', GetHours), (''%b %d'', AlwaysTrue)]
      else if gap < 27993600000 then [(''%b %d'', DateNotFirst), (''%b %Y'', AlwaysTrue)]
      else [(''%b %d'', DateNotFirst), (''%b %Y'', GetMonth), (''%Y'', AlwaysTrue)])"
proof -
  have t: "one_second = 1000" "one_minute = 60000" "one_hour = 3600000" "one_day = 86400000"
    "month_threshold = 2332800000" "year_threshold = 27993600000"
    by (simp_all add: one_second_def one_minute_def one_hour_def one_day_def
        month_threshold_def year_threshold_def)
  have d: "gap div 1000 = 0 \<longleftrightarrow> gap < 1000" "gap div 60000 = 0 \<longleftrightarrow> gap < 60000"
    "gap div 3600000 = 0 \<longleftrightarrow> gap < 3600000" "gap div 86400000 = 0 \<longleftrightarrow> gap < 86400000"
    "gap div 2332800000 = 0 \<longleftrightarrow> gap < 2332800000"
    "gap div 27993600000 = 0 \<longleftrightarrow> gap < 27993600000"
    using assms by (simp_all only: gap_div_zero zero_less_numeral)
  show ?thesis
    unfolding format_for_gap_def t d month_day_format_def by auto
qed

text \<open>
  C5. For every tick list with at least two entries, \<^verbatim>\<open>date_sc_format\<close> picks its format
  list from the gap \<open>|ticks[1] - ticks[0]|\<close> (in milliseconds) alone, by successive integer
  divisions by one second, one minute, one hour, one day, 27 days and 12 times 27 days. Below
  one second it returns the millisecond/second format; from one day up to 27 days and from
  27 days up to 12 times 27 days it returns the same pair \<open>%b %d\<close>, \<open>%b %Y\<close>; from there on
  the three-level format ending in \<open>%Y\<close>.
\<close>

theorem date_sc_format_threshold_ladder:
  assumes "2 \<le> length ticks" and "2 \<le> length ticks'"
  shows "date_sc_format ticks = format_for_gap \<bar>ticks ! 1 - ticks ! 0\<bar> \<and>
     (\<bar>ticks' ! 1 - ticks' ! 0\<bar> = \<bar>ticks ! 1 - ticks ! 0\<bar> \<longrightarrow>
        date_sc_format ticks' = date_sc_format ticks) \<and>
     (\<bar>ticks ! 1 - ticks ! 0\<bar> < 1000 \<longrightarrow>
        date_sc_format ticks =
          [(''.%L'', GetMilliseconds), ('':%S'', GetSeconds), (''%I:%M'', AlwaysTrue)]) \<and>
     (86400000 \<le> \<bar>ticks ! 1 - ticks ! 0\<bar> \<and> \<bar>ticks ! 1 - ticks ! 0\<bar> < 27 * 86400000 \<longrightarrow>
        date_sc_format ticks = [(''%b %d'', DateNotFirst), (''%b %Y'', AlwaysTrue)]) \<and>
     (27 * 86400000 \<le> \<bar>ticks ! 1 - ticks ! 0\<bar> \<and> \<bar>ticks ! 1 - ticks ! 0\<bar> < 12 * (27 * 86400000) \<longrightarrow>
        date_sc_format ticks = [(''%b %d'', DateNotFirst), (''%b %Y'', AlwaysTrue)]) \<and>
     (12 * (27 * 86400000) \<le> \<bar>ticks ! 1 - ticks ! 0\<bar> \<longrightarrow>
        date_sc_format ticks =
          [(''%b %d'', DateNotFirst), (''%b %Y'', GetMonth), (''%Y'', AlwaysTrue)])"
proof -
  define g where "g = \<bar>ticks ! 1 - ticks ! 0\<bar>"
  define g' where "g' = \<bar>ticks' ! 1 - ticks' ! 0\<bar>"
  have L: "date_sc_format ticks = format_for_gap g"
    unfolding g_def by (rule date_sc_format_ladder [OF assms(1)])
  have L': "date_sc_format ticks' = format_for_gap g'"
    unfolding g'_def by (rule date_sc_format_ladder [OF assms(2)])
  have "0 \<le> g" by (simp add: g_def)
  note F = format_for_gap_less [OF this]
  have "date_sc_format ticks = format_for_gap g \<and>
     (g' = g \<longrightarrow> date_sc_format ticks' = date_sc_format ticks) \<and>
     (g < 1000 \<longrightarrow>
        date_sc_format ticks =
          [(''.%L'', GetMilliseconds), ('':%S'', GetSeconds), (''%I:%M'', AlwaysTrue)]) \<and>
     (86400000 \<le> g \<and> g < 27 * 86400000 \<longrightarrow>
        date_sc_format ticks = [(''%b %d'', DateNotFirst), (''%b %Y'', AlwaysTrue)]) \<and>
     (27 * 86400000 \<le> g \<and> g < 12 * (27 * 86400000) \<longrightarrow>
        date_sc_format ticks = [(''%b %d'', DateNotFirst), (''%b %Y'', AlwaysTrue)]) \<and>
     (12 * (27 * 86400000) \<le> g \<longrightarrow>
        date_sc_format ticks =
          [(''%b %d'', DateNotFirst), (''%b %Y'', GetMonth), (''%Y'', AlwaysTrue)])"
    unfolding L L' by (auto simp: F)
  then show ?thesis
    unfolding g_def g'_def .
qed

theorem date_sc_format_threshold_ladder_witness:
  "date_sc_format [0, 500] =
     [(''.%L'', GetMilliseconds), ('':%S'', GetSeconds), (''%I:%M'', AlwaysTrue)] \<and>
   date_sc_format [0, 86400000] = [(''%b %d'', DateNotFirst), (''%b %Y'', AlwaysTrue)] \<and>
   date_sc_format [2332800000, 0] = [(''%b %d'', DateNotFirst), (''%b %Y'', AlwaysTrue)] \<and>
   date_sc_format [0, 27993600000, 5] =
     [(''%b %d'', DateNotFirst), (''%b %Y'', GetMonth), (''%Y'', AlwaysTrue)] \<and>
   date_sc_format [7, 507, 9] = date_sc_format [0, 500]"
  using
    date_sc_format_threshold_ladder [of "[0, 500]" "[7, 507, 9]", THEN conjunct2]
    date_sc_format_threshold_ladder [of "[0, 86400000]" "[0, 500]", THEN conjunct2]
    date_sc_format_threshold_ladder [of "[2332800000, 0]" "[0, 500]", THEN conjunct2]
    date_sc_format_threshold_ladder [of "[0, 27993600000, 5]" "[0, 500]", THEN conjunct2]
  by simp

section \<open>Precision of a linear scale\<close>

lemma get_digits_nonzero: "v \<noteq> 0 \<Longrightarrow> get_digits v = \<lfloor>log 10 \<bar>v\<bar>\<rfloor> + 1"
  by (simp add: get_digits_def)

lemma get_digits_ge_iff:
  assumes "v \<noteq> 0"
  shows "k \<le> get_digits v \<longleftrightarrow> 10 powr real_of_int (k - 1) \<le> \<bar>v\<bar>"
proof -
  have pos: "0 < \<bar>v\<bar>" using assms by simp
  have "k \<le> get_digits v \<longleftrightarrow> k - 1 \<le> \<lfloor>log 10 \<bar>v\<bar>\<rfloor>"
    unfolding get_digits_nonzero [OF assms] by linarith
  also have "\<dots> \<longleftrightarrow> real_of_int (k - 1) \<le> log 10 \<bar>v\<bar>"
    by (rule le_floor_iff)
  also have "\<dots> \<longleftrightarrow> 10 powr real_of_int (k - 1) \<le> \<bar>v\<bar>"
    using pos by (simp add: le_log_iff)
  finally show ?thesis .
qed

lemma get_digits_pos_iff: "0 < get_digits v \<longleftrightarrow> v = 0 \<or> 1 \<le> \<bar>v\<bar>"
proof (cases "v = 0")
  case True
  then show ?thesis by (simp add: get_digits_def)
next
  case False
  have "0 < get_digits v \<longleftrightarrow> 1 \<le> get_digits v" by linarith
  also have "\<dots> \<longleftrightarrow> 1 \<le> \<bar>v\<bar>"
    using get_digits_ge_iff [OF False, of 1] by simp
  finally show ?thesis using False by simp
qed

lemma get_digits_nonneg_iff: "0 \<le> get_digits v \<longleftrightarrow> v = 0 \<or> 1 / 10 \<le> \<bar>v\<bar>"
proof (cases "v = 0")
  case True
  then show ?thesis by (simp add: get_digits_def)
next
  case False
  have "(10::real) powr real_of_int (0 - 1) = 1 / 10"
    by (simp add: powr_minus_divide)
  then show ?thesis
    using get_digits_ge_iff [OF False, of 0] False by simp
qed

lemma get_digits_le6_iff: "get_digits v \<le> 6 \<longleftrightarrow> \<bar>v\<bar> < 1000000"
proof (cases "v = 0")
  case True
  then show ?thesis by (simp add: get_digits_def)
next
  case False
  have p: "(10::real) powr real_of_int (7 - 1) = 1000000"
    by (simp add: powr_numeral)
  have "get_digits v \<le> 6 \<longleftrightarrow> \<not> 7 \<le> get_digits v" by linarith
  then show ?thesis
    using get_digits_ge_iff [OF False, of 7] p by simp linarith
qed

lemma get_digits_close:
  assumes "0 < a" and "a \<le> 10 * b"
  shows "get_digits a \<le> get_digits b + 1"
proof -
  have b: "0 < b" using assms by simp
  then have bn: "b \<noteq> 0" by simp
  have an: "a \<noteq> 0" using assms by simp
  have "10 powr real_of_int (get_digits a - 1) \<le> \<bar>a\<bar>"
    using get_digits_ge_iff [OF an, of "get_digits a"] by simp
  then have "10 powr real_of_int (get_digits a - 1) \<le> 10 * b"
    using assms by simp
  moreover have "(10::real) powr real_of_int (get_digits a - 1) =
      10 * 10 powr real_of_int (get_digits a - 1 - 1)"
    by (simp add: powr_diff powr_add)
  ultimately have "10 powr real_of_int (get_digits a - 1 - 1) \<le> \<bar>b\<bar>"
    using b by simp
  then have "get_digits a - 1 \<le> get_digits b"
    using get_digits_ge_iff [OF bn, of "get_digits a - 1"] by simp
  then show ?thesis by simp
qed


lemma linear_scale_precision_None_iff:
  assumes "2 \<le> length ticks"
  shows "linear_scale_precision ticks = None \<longleftrightarrow>
     (ticks ! 1 = ticks ! 0 \<or> 1 \<le> \<bar>ticks ! 1 - ticks ! 0\<bar>) \<and>
     0 < max \<bar>ticks ! 0\<bar> \<bar>ticks ! (length ticks - 1)\<bar> \<and>
     max \<bar>ticks ! 0\<bar> \<bar>ticks ! (length ticks - 1)\<bar> < 1 / 10"
proof -
  define dd where "dd = get_digits \<bar>ticks ! 1 - ticks ! 0\<bar>"
  define m where "m = max \<bar>ticks ! 0\<bar> \<bar>ticks ! (length ticks - 1)\<bar>"
  define md where "md = get_digits m"
  have len: "\<not> length ticks < 2" using assms by simp
  have m0: "0 \<le> m" by (simp add: m_def)
  have "linear_scale_precision ticks = None \<longleftrightarrow> \<not> (md \<ge> 0 \<and> dd > 0) \<and> \<not> dd \<le> 0"
    unfolding linear_scale_precision_def Let_def if_not_P [OF len] dd_def [symmetric]
      m_def [symmetric] md_def [symmetric]
    by simp
  also have "\<dots> \<longleftrightarrow> 0 < dd \<and> \<not> 0 \<le> md" by auto
  also have "\<dots> \<longleftrightarrow> (ticks ! 1 = ticks ! 0 \<or> 1 \<le> \<bar>ticks ! 1 - ticks ! 0\<bar>) \<and> 0 < m \<and> m < 1 / 10"
    unfolding dd_def md_def get_digits_pos_iff get_digits_nonneg_iff
    using m0 by auto
  finally show ?thesis unfolding m_def .
qed

lemma linear_scale_precision_sorted:
  assumes len: "2 \<le> length ticks" and srt: "sorted ticks" and lt: "ticks ! 0 < ticks ! 1"
  shows "\<exists>v. linear_scale_precision ticks = Some v \<and> 0 \<le> v \<and> v \<le> 7"
proof -
  define d where "d = \<bar>ticks ! 1 - ticks ! 0\<bar>"
  define m where "m = max \<bar>ticks ! 0\<bar> \<bar>ticks ! (length ticks - 1)\<bar>"
  define dd where "dd = get_digits d"
  define md where "md = get_digits m"
  have nlen: "\<not> length ticks < 2" using len by simp
  have d_pos: "0 < d" using lt by (simp add: d_def)
  have "ticks ! 1 \<le> ticks ! (length ticks - 1)"
    using srt len by (intro sorted_nth_mono) auto
  then have "d \<le> \<bar>ticks ! 0\<bar> + \<bar>ticks ! (length ticks - 1)\<bar>"
    using lt by (simp add: d_def)
  then have dm: "d \<le> 2 * m" by (simp add: m_def max_def split: if_splits)
  then have close: "dd \<le> md + 1"
    unfolding dd_def md_def using d_pos by (intro get_digits_close) auto
  have eq: "linear_scale_precision ticks =
      (if md \<ge> 0 \<and> dd > 0 then (if md \<le> 6 then Some 0 else Some (min \<bar>md - dd\<bar> 6 + 1))
       else if dd \<le> 0 then Some (min (\<bar>dd\<bar> + md) 6 + 1) else None)"
    unfolding linear_scale_precision_def Let_def if_not_P [OF nlen] d_def [symmetric]
      m_def [symmetric] md_def [symmetric] dd_def [symmetric]
    by (rule refl)
  show ?thesis
    unfolding eq using close by (auto simp: min_def)
qed

text \<open>
  C9. \<^verbatim>\<open>_linear_scale_precision\<close> is partial: its two guarded branches do not cover the
  inputs whose difference has a positive number of digits while the larger end-point
  magnitude has a negative one, and there it falls through and returns \<^verbatim>\<open>undefined\<close>. For
  tick arrays of length at least 2 this happens exactly when the first two ticks are equal or
  at least 1 apart while the larger of \<open>|ticks[0]|\<close> and \<open>|ticks[last]|\<close> is positive and below
  0.1, as for \<open>[0.01, 5, 0.02]\<close>. When the ticks are sorted with \<open>ticks[0] < ticks[1]\<close> the
  function returns a value, and the value lies in \<open>{0, \<dots>, 7}\<close>.
\<close>

theorem linear_scale_precision_partial:
  "linear_scale_precision [1 / 100, 5, 2 / 100] = None \<and>
   (2 \<le> length ticks \<longrightarrow>
      (linear_scale_precision ticks = None \<longleftrightarrow>
         (ticks ! 1 = ticks ! 0 \<or> 1 \<le> \<bar>ticks ! 1 - ticks ! 0\<bar>) \<and>
         0 < max \<bar>ticks ! 0\<bar> \<bar>ticks ! (length ticks - 1)\<bar> \<and>
         max \<bar>ticks ! 0\<bar> \<bar>ticks ! (length ticks - 1)\<bar> < 1 / 10)) \<and>
   (2 \<le> length ticks \<and> sorted ticks \<and> ticks ! 0 < ticks ! 1 \<longrightarrow>
      (\<exists>v. linear_scale_precision ticks = Some v \<and> 0 \<le> v \<and> v \<le> 7))"
proof -
  have "linear_scale_precision [1 / 100, 5, 2 / 100] = None"
    by (subst linear_scale_precision_None_iff) simp_all
  then show ?thesis
    using linear_scale_precision_None_iff [of ticks] linear_scale_precision_sorted [of ticks]
    by blast
qed

theorem linear_scale_precision_partial_witness:
  "(\<exists>v. linear_scale_precision [0, 1 / 2, 1] = Some v \<and> 0 \<le> v \<and> v \<le> 7) \<and>
   linear_scale_precision [1 / 20, 3, 4, 1 / 50] = None \<and>
   linear_scale_precision [0, 3, 4, 0] \<noteq> None"
  using linear_scale_precision_partial [of "[0, 1 / 2, 1]"]
    linear_scale_precision_partial [of "[1 / 20, 3, 4, 1 / 50]"]
    linear_scale_precision_partial [of "[0, 3, 4, 0]"]
  by simp

section \<open>Adaptive ticks of a log axis\<close>

lemma push_kept_filter: "push_kept keep ts useticks = useticks @ filter keep ts"
  by (induction ts arbitrary: useticks) simp_all

lemma js_rem_1_frac: "\<bar>js_rem l 1\<bar> = frac \<bar>l\<bar>"
proof (cases "0 \<le> l")
  case True
  then show ?thesis
    using frac_ge_0 [of l] by (simp add: js_rem_def js_trunc_def frac_def)
next
  case False
  then have neg: "l < 0" by simp
  have "\<lceil>l\<rceil> = - \<lfloor>- l\<rfloor>" by (simp add: ceiling_def)
  moreover have "l \<le> real_of_int \<lceil>l\<rceil>" by (rule le_of_int_ceiling)
  ultimately show ?thesis
    using neg by (simp add: js_rem_def js_trunc_def frac_def)
qed

lemma js_rem_real_mod:
  assumes "0 < s"
  shows "\<bar>js_rem l s\<bar> = real_mod \<bar>l\<bar> s"
proof (cases "0 \<le> l")
  case True
  then have q: "0 \<le> l / s" using assms by simp
  have "s * real_of_int \<lfloor>l / s\<rfloor> \<le> s * (l / s)"
    using assms by (intro mult_left_mono) auto
  then have "s * real_of_int \<lfloor>l / s\<rfloor> \<le> l"
    using assms by simp
  then show ?thesis
    using True q by (simp add: js_rem_def js_trunc_def real_mod_def)
next
  case False
  then have neg: "l < 0" by simp
  then have q: "\<not> 0 \<le> l / s" using assms by (simp add: divide_less_0_iff not_le)
  have c: "\<lceil>l / s\<rceil> = - \<lfloor>- l / s\<rfloor>" by (simp add: ceiling_def)
  have "s * (l / s) \<le> s * real_of_int \<lceil>l / s\<rceil>"
    using assms by (intro mult_left_mono) auto
  then have "l \<le> s * real_of_int \<lceil>l / s\<rceil>"
    using assms by simp
  then show ?thesis
    using neg q c by (simp add: js_rem_def js_trunc_def real_mod_def)
qed


lemma keep_125_Num: "0 < t \<Longrightarrow> keep_125 (Num t) = near_1_2_5 t"
  by (simp add: keep_125_def near_1_2_5_def js_log10_def js_rem_1_frac is_within_def Let_def)

lemma keep_step_Num:
  "0 < t \<Longrightarrow> 0 < s \<Longrightarrow> keep_step (Finite s) (Num t) = near_multiple s t"
  by (simp add: keep_step_def near_multiple_def js_log10_def js_rem_real_mod is_within_def Let_def)

lemma filter_map_Num:
  assumes "\<forall>t\<in>set ticks. keep (Num t) = keep' t"
  shows "filter keep (map Num ticks) = map Num (filter keep' ticks)"
  using assms by (induction ticks) simp_all

lemma js_round_ge_1: "7 \<le> v \<Longrightarrow> 1 \<le> js_round (v / 10)"
  unfolding js_round_def by (subst le_floor_iff) simp

lemma log10_pow: "log 10 (10 ^ n) = real n"
  by (simp add: log_nat_power)

lemma log10_vals: "log 10 1 = 0" "log 10 10 = 1" "log 10 100 = 2" "log 10 1000 = 3"
  "log 10 100000000000000000000 = 20"
  using log10_pow [of 0] log10_pow [of 1] log10_pow [of 2] log10_pow [of 3] log10_pow [of 20]
  by simp_all

lemma log10_3: "2 / 5 < log 10 3" "log 10 3 < 1 / 2"
proof -
  have p10: "log 10 ((3::real) ^ 10) = 10 * log 10 3"
    by (subst log_nat_power) simp_all
  have p2: "log 10 ((3::real) ^ 2) = 2 * log 10 3"
    by (subst log_nat_power) simp_all
  have t4: "log 10 ((10::real) ^ 4) = 4" and t1: "log 10 ((10::real) ^ 1) = 1"
    using log10_pow [of 4] log10_pow [of 1] by simp_all
  have "log 10 ((10::real) ^ 4) < log 10 (3 ^ 10)"
    by (subst log_less_cancel_iff) simp_all
  with p10 t4 have "4 < 10 * log 10 3" by (simp only:)
  then show "2 / 5 < log 10 3" by simp
  have "log 10 ((3::real) ^ 2) < log 10 (10 ^ 1)"
    by (subst log_less_cancel_iff) simp_all
  with p2 t1 have "2 * log 10 3 < 1" by (simp only:)
  then show "log 10 3 < 1 / 2" by simp
qed

lemma frac_vals: "frac (0::real) = 0" "frac (1::real) = 0" "frac (2::real) = 0" "frac (3::real) = 0"
  by (simp_all add: frac_eq_0_iff)

lemma near_1_2_5_examples:
  "near_1_2_5 1" "near_1_2_5 10" "near_1_2_5 100" "\<not> near_1_2_5 3"
proof -
  show "near_1_2_5 1" "near_1_2_5 10" "near_1_2_5 100"
    by (simp_all add: near_1_2_5_def Let_def is_within_def log10_vals frac_vals)
  have pos: "0 \<le> log 10 3" using log10_3(1) by simp
  have "frac (log 10 3) = log 10 3"
    using log10_3 by (simp add: frac_eq)
  then show "\<not> near_1_2_5 3"
    using log10_3 pos by (simp add: near_1_2_5_def Let_def is_within_def abs_if)
qed

lemma near_multiple_examples:
  "near_multiple 2 1" "\<not> near_multiple 2 10" "near_multiple 2 100" "\<not> near_multiple 2 1000"
  by (simp_all add: near_multiple_def Let_def is_within_def log10_vals real_mod_def)

text \<open>
  C1. For every log-scale axis with no explicit \<^verbatim>\<open>tick_values\<close> and no \<^verbatim>\<open>num_ticks\<close>, with a
  positive domain and positive ticks, \<^verbatim>\<open>set_tick_values\<close> chooses from the tick list of the
  scale according to \<open>oom = |log10(domain[1] / domain[0])|\<close>: all ticks when \<open>oom < 2\<close>; when
  \<open>2 \<le> oom < 7\<close>, in order, exactly the ticks \<open>t\<close> for which the fractional part of
  \<open>|log10(t)|\<close> is within 0.001 of 0, 1, 0.30103 or 0.69897; otherwise, with
  \<open>s = round(oom / 10)\<close>, exactly the ticks for which \<open>|log10(t)| mod s\<close> is within 0.001 of 0
  or of \<open>s\<close>.
\<close>

theorem set_tick_values_log_adaptive:
  assumes "scale_type (axis_scale a) = ''log''"
    and "tick_values a = None \<or> tick_values a = Some []"
    and "num_ticks a = None"
    and "scale_domain (axis_scale a) = Num d0 # Num d1 # rest"
    and "0 < d0" and "0 < d1"
    and "scale_ticks (axis_scale a) = map Num ticks"
    and "\<forall>t\<in>set ticks. 0 < t"
  shows "set_tick_values a = Inr (map Num (adaptive_log_ticks d0 d1 ticks))"
proof -
  define oom where "oom = \<bar>log 10 (d1 / d0)\<bar>"
  have dom: "js_nth (scale_domain (axis_scale a)) 1 = Some (Num d1)"
    "js_nth (scale_domain (axis_scale a)) 0 = Some (Num d0)"
    by (simp_all add: assms(4) js_nth_def)
  have d0: "d0 \<noteq> 0" and q: "0 < d1 / d0" using assms(5,6) by simp_all
  have oom_eq: "log_oom (Some d1) (Some d0) = Finite oom"
    using d0 q by (simp add: log_oom_def oom_def)
  have no_explicit: "\<not> (tick_values a \<noteq> None \<and>
      length (case tick_values a of None \<Rightarrow> [] | Some tv \<Rightarrow> tv) > 0)"
    using assms(2) by auto
  have not_ordinal: "scale_type (axis_scale a) \<noteq> ''ordinal''"
    by (simp add: assms(1))
  have body: "set_tick_values a =
      (if oom < 2 then Inr (map Num ticks)
       else if oom < 7 then Inr (push_kept keep_125 (map Num ticks) [])
       else Inr (push_kept (keep_step (Finite (real_of_int (js_round (oom / 10))))) (map Num ticks) []))"
    unfolding set_tick_values_def Let_def if_not_P [OF no_explicit] assms(3) dom to_number.simps
      oom_eq assms(7)
    using not_ordinal assms(1) by simp
  have k1: "filter keep_125 (map Num ticks) = map Num (filter near_1_2_5 ticks)"
    using assms(8) by (intro filter_map_Num) (simp add: keep_125_Num)
  have k2: "filter (keep_step (Finite (real_of_int (js_round (oom / 10))))) (map Num ticks) =
      map Num (filter (near_multiple (real_of_int (js_round (oom / 10)))) ticks)"
    if "7 \<le> oom"
  proof -
    have "0 < real_of_int (js_round (oom / 10))"
      using js_round_ge_1 [OF that] by simp
    then show ?thesis
      using assms(8) by (intro filter_map_Num) (simp add: keep_step_Num)
  qed
  have r: "js_round (oom / 10) = round (oom / 10)"
    by (simp add: js_round_def round_def)
  show ?thesis
    unfolding body adaptive_log_ticks_def oom_def [symmetric] Let_def push_kept_filter
    using k1 k2 by (simp add: r)
qed

theorem set_tick_values_log_adaptive_witness:
  "set_tick_values \<lparr>tick_values = None, num_ticks = None,
       axis_scale = \<lparr>scale_type = ''log'', scale_domain = [Num 1, Num 10],
         scale_ticks = map Num [1, 2, 3]\<rparr>\<rparr> = Inr [Num 1, Num 2, Num 3] \<and>
   set_tick_values \<lparr>tick_values = Some [], num_ticks = None,
       axis_scale = \<lparr>scale_type = ''log'', scale_domain = [Num 1, Num 1000],
         scale_ticks = map Num [1, 3, 10, 100]\<rparr>\<rparr> = Inr [Num 1, Num 10, Num 100] \<and>
   set_tick_values \<lparr>tick_values = None, num_ticks = None,
       axis_scale = \<lparr>scale_type = ''log'', scale_domain = [Num 1, Num 100000000000000000000],
         scale_ticks = map Num [1, 10, 100, 1000]\<rparr>\<rparr> = Inr [Num 1, Num 100]"
proof (intro conjI)
  show "set_tick_values \<lparr>tick_values = None, num_ticks = None,
       axis_scale = \<lparr>scale_type = ''log'', scale_domain = [Num 1, Num 10],
         scale_ticks = map Num [1, 2, 3]\<rparr>\<rparr> = Inr [Num 1, Num 2, Num 3]"
    using set_tick_values_log_adaptive [of "\<lparr>tick_values = None, num_ticks = None,
       axis_scale = \<lparr>scale_type = ''log'', scale_domain = [Num 1, Num 10],
         scale_ticks = map Num [1, 2, 3]\<rparr>\<rparr>" 1 10 "[]" "[1, 2, 3]"]
    by (simp add: adaptive_log_ticks_def log10_vals)
  show "set_tick_values \<lparr>tick_values = Some [], num_ticks = None,
       axis_scale = \<lparr>scale_type = ''log'', scale_domain = [Num 1, Num 1000],
         scale_ticks = map Num [1, 3, 10, 100]\<rparr>\<rparr> = Inr [Num 1, Num 10, Num 100]"
    using set_tick_values_log_adaptive [of "\<lparr>tick_values = Some [], num_ticks = None,
       axis_scale = \<lparr>scale_type = ''log'', scale_domain = [Num 1, Num 1000],
         scale_ticks = map Num [1, 3, 10, 100]\<rparr>\<rparr>" 1 1000 "[]" "[1, 3, 10, 100]"]
    by (simp add: adaptive_log_ticks_def log10_vals near_1_2_5_examples)
  show "set_tick_values \<lparr>tick_values = None, num_ticks = None,
       axis_scale = \<lparr>scale_type = ''log'', scale_domain = [Num 1, Num 100000000000000000000],
         scale_ticks = map Num [1, 10, 100, 1000]\<rparr>\<rparr> = Inr [Num 1, Num 100]"
    using set_tick_values_log_adaptive [of "\<lparr>tick_values = None, num_ticks = None,
       axis_scale = \<lparr>scale_type = ''log'', scale_domain = [Num 1, Num 100000000000000000000],
         scale_ticks = map Num [1, 10, 100, 1000]\<rparr>\<rparr>" 1 100000000000000000000 "[]"
         "[1, 10, 100, 1000]"]
    by (simp add: adaptive_log_ticks_def log10_vals near_multiple_examples round_def)
qed

section \<open>Tick subsampling\<close>

lemma range_int_indices:
  assumes "1 \<le> step"
  shows "map (\<lambda>index. arr ! nat index) (range_int 0 (int len) (int step)) =
     map (\<lambda>k. arr ! (k * step)) [0..<nat \<lceil>real len / real step\<rceil>]"
proof -
  have s0: "int step \<noteq> 0" using assms by simp
  have "- 1 < real len / real step"
    by (rule less_le_trans [of _ 0]) simp_all
  then have "0 \<le> \<lceil>real len / real step\<rceil>" by (simp only: zero_le_ceiling)
  then have "max \<lceil>real len / real step\<rceil> 0 = \<lceil>real len / real step\<rceil>"
    by (rule max_absorb1)
  moreover have "real_of_int (int len - 0) / real_of_int (int step) = real len / real step"
    by simp
  ultimately have c: "max \<lceil>real_of_int (int len - 0) / real_of_int (int step)\<rceil> 0 =
      \<lceil>real len / real step\<rceil>"
    by (simp only:)
  show ?thesis
    unfolding range_int_def Let_def if_not_P [OF s0] c
    by (simp add: comp_def nat_mult_distrib)
qed

lemma index_count_bounds:
  assumes "1 \<le> step"
  shows "\<forall>k < nat \<lceil>real len / real step\<rceil>. k * step < len"
    and "len \<le> nat \<lceil>real len / real step\<rceil> * step"
proof -
  have sp: "0 < real step" using assms by simp
  show "\<forall>k < nat \<lceil>real len / real step\<rceil>. k * step < len"
  proof (intro allI impI)
    fix k assume "k < nat \<lceil>real len / real step\<rceil>"
    then have "int k < \<lceil>real len / real step\<rceil>" by linarith
    then have "real_of_int (int k) < real len / real step" by (simp only: less_ceiling_iff)
    then have "real k * real step < real len" using sp by (simp add: pos_less_divide_eq)
    then have "real (k * step) < real len" by simp
    then show "k * step < len" by (simp only: of_nat_less_iff)
  qed
  have "real len / real step \<le> real_of_int \<lceil>real len / real step\<rceil>" by (rule le_of_int_ceiling)
  moreover have "- 1 < real len / real step"
    by (rule less_le_trans [of _ 0]) simp_all
  then have "0 \<le> \<lceil>real len / real step\<rceil>" by (simp only: zero_le_ceiling)
  ultimately have "real len / real step \<le> real (nat \<lceil>real len / real step\<rceil>)" by simp
  then have "real len / real step * real step \<le> real (nat \<lceil>real len / real step\<rceil>) * real step"
    using sp by (intro mult_right_mono) simp_all
  moreover have "real len / real step * real step = real len" using sp by simp
  ultimately have "real len \<le> real (nat \<lceil>real len / real step\<rceil>) * real step"
    by (simp only:)
  then have "real len \<le> real (nat \<lceil>real len / real step\<rceil> * step)"
    by (simp only: of_nat_mult)
  then show "len \<le> nat \<lceil>real len / real step\<rceil> * step" by (simp only: of_nat_le_iff)
qed

lemma floor_step:
  assumes "2 \<le> n"
  shows "\<lfloor>real len / real_of_int (n - 1)\<rfloor> = int (len div nat (n - 1))"
proof -
  have "\<lfloor>real_of_int (int len) / real_of_int (n - 1)\<rfloor> = int len div (n - 1)"
    by (rule floor_divide_of_int_eq)
  moreover have "int len div (n - 1) = int (len div nat (n - 1))"
    using assms by (simp add: zdiv_int)
  ultimately show ?thesis by simp
qed

lemma range_real_ramp:
  assumes "2 \<le> n" and "lo \<noteq> hi" and "step = (hi - lo) / real_of_int (n - 1)"
  shows "range_real lo (hi + step * 0.5) step = map (\<lambda>k. lo + real k * step) [0..<nat n]"
    and "lo + real_of_int (n - 1) * step = hi"
proof -
  have n1: "real_of_int (n - 1) \<noteq> 0" using assms(1) by simp
  have s0: "step \<noteq> 0" using assms(2) n1 by (simp add: assms(3))
  show last: "lo + real_of_int (n - 1) * step = hi"
    using n1 by (simp add: assms(3))
  then have "hi - lo = real_of_int (n - 1) * step" by simp
  then have "(hi + step * 0.5 - lo) / step = real_of_int (n - 1) + 1 / 2"
    using s0 by (simp add: field_simps)
  moreover have "\<lceil>real_of_int (n - 1) + 1 / 2\<rceil> = n"
    by (simp add: ceiling_eq_iff)
  ultimately have c: "\<lceil>(hi + step * 0.5 - lo) / step\<rceil> = n" by simp
  have m: "max n 0 = n" using assms(1) by simp
  show "range_real lo (hi + step * 0.5) step = map (\<lambda>k. lo + real k * step) [0..<nat n]"
    unfolding range_real_def Let_def if_not_P [OF s0] c m by (rule refl)
qed


lemma js_nth_ends:
  assumes "xs \<noteq> []"
  shows "js_nth xs 0 = Some (hd xs)" and "js_nth xs (int (length xs) - 1) = Some (last xs)"
proof -
  show "js_nth xs 0 = Some (hd xs)"
    using assms by (simp add: js_nth_def hd_conv_nth)
  have "nat (int (length xs) - 1) = length xs - 1" by simp
  then show "js_nth xs (int (length xs) - 1) = Some (last xs)"
    using assms by (simp add: js_nth_def last_conv_nth)
qed

lemma get_ticks_few: "n < 2 \<Longrightarrow> get_ticks a n da = Inr []"
  by (simp add: get_ticks_def Let_def)

lemma get_ticks_short:
  assumes "2 \<le> n"
    and "(if scale_type (axis_scale a) = ''ordinal'' then Some (scale_domain (axis_scale a)) else da)
         = Some arr"
    and "int (length arr) \<le> n"
  shows "get_ticks a n da = Inr arr"
proof -
  have n: "\<not> n < 2" using assms(1) by simp
  show ?thesis
    unfolding get_ticks_def Let_def assms(2) if_not_P [OF n] using assms(3) by simp
qed

lemma get_ticks_long:
  assumes "2 \<le> n"
    and "(if scale_type (axis_scale a) = ''ordinal'' then Some (scale_domain (axis_scale a)) else da)
         = Some arr"
    and "n < int (length arr)"
    and "istep = length arr div nat (n - 1)"
  shows "1 \<le> istep"
    and "get_ticks a n da =
       Inr (map (\<lambda>k. arr ! (k * istep)) [0..<nat \<lceil>real (length arr) / real istep\<rceil>])"
proof -
  have n: "\<not> n < 2" using assms(1) by simp
  have long: "\<not> int (length arr) \<le> n" using assms(3) by simp
  have "nat (n - 1) \<le> length arr" "0 < nat (n - 1)" using assms(1,3) by simp_all
  then have "1 \<le> length arr div nat (n - 1)"
    by (simp add: div_greater_zero_iff Suc_le_eq)
  then show one: "1 \<le> istep" by (simp add: assms(4))
  have fl: "\<lfloor>real (length arr) / real_of_int (n - 1)\<rfloor> = int istep"
    unfolding assms(4) by (rule floor_step [OF assms(1)])
  show "get_ticks a n da =
       Inr (map (\<lambda>k. arr ! (k * istep)) [0..<nat \<lceil>real (length arr) / real istep\<rceil>])"
    unfolding get_ticks_def Let_def assms(2) if_not_P [OF n] option.case if_not_P [OF long] fl
      range_int_indices [OF one]
    by (rule refl)
qed

lemma get_ticks_ramp:
  assumes "2 \<le> n"
    and "scale_type (axis_scale a) \<noteq> ''ordinal''"
    and "\<not> is_date_scale (axis_scale a)"
    and "scale_domain (axis_scale a) \<noteq> []"
    and "hd (scale_domain (axis_scale a)) = Num lo"
    and "last (scale_domain (axis_scale a)) = Num hi"
    and "step = (hi - lo) / real_of_int (n - 1)"
  shows "get_ticks a n None = Inr (map Num (range_real lo (hi + step / 2) step))"
proof -
  have n: "\<not> n < 2" using assms(1) by simp
  have h: "hi + step * 0.5 = hi + step / 2" by simp
  show ?thesis
    unfolding get_ticks_def Let_def if_not_P [OF assms(2)] if_not_P [OF n] option.case
      if_not_P [OF assms(3)] js_nth_ends [OF assms(4)] assms(5,6) prod.case option.case jsval.case
      assms(7) [symmetric] h
    by (rule refl)
qed

lemma get_ticks_date_ramp:
  assumes "2 \<le> n"
    and "is_date_scale (axis_scale a)"
    and "2 \<le> length (scale_domain (axis_scale a))"
    and "hd (scale_domain (axis_scale a)) = Date tlo"
    and "last (scale_domain (axis_scale a)) = Date thi"
    and "dstep = (real_of_int thi - real_of_int tlo) / real_of_int (n - 1)"
  shows "get_ticks a n None =
     Inr (map (\<lambda>elem. Date (js_trunc elem))
            (range_real (real_of_int tlo) (real_of_int thi + dstep / 2) dstep))"
proof -
  have n: "\<not> n < 2" using assms(1) by simp
  have no: "scale_type (axis_scale a) \<noteq> ''ordinal''"
    using assms(2) by (auto simp: is_date_scale_def)
  have ne: "scale_domain (axis_scale a) \<noteq> []" using assms(3) by auto
  have m: "int (length (scale_domain (axis_scale a))) - 1 \<noteq> 0" using assms(3) by simp
  have h: "real_of_int thi + dstep * 0.5 = real_of_int thi + dstep / 2" by simp
  show ?thesis
    unfolding get_ticks_def Let_def if_not_P [OF no] if_not_P [OF n] option.case
      if_P [OF assms(2)] js_nth_ends [OF ne] assms(4,5) get_time_def option.case jsval.case
      sum.case if_not_P [OF m] assms(6) [symmetric] h
    by (rule refl)
qed

text \<open>
  C4. The cases of \<^verbatim>\<open>get_ticks\<close>, read in the order of the function. For every
  \<open>num_ticks < 2\<close> it returns the empty list. Otherwise, for every data array (on an ordinal
  scale: the domain) whose length is at most \<open>num_ticks\<close> it returns that array unchanged,
  and for every longer array the elements at the indices \<open>0, step, 2 * step, \<dots>\<close> below the
  length, where \<open>step = floor(length / (num_ticks - 1))\<close> is at least 1. For a scale that is
  not ordinal and without a data array it returns the arithmetic ramp from \<open>domain[0]\<close> in
  steps of \<open>(domain[last] - domain[0]) / (num_ticks - 1)\<close> up to \<open>domain[last] + step / 2\<close>
  (when the two ends differ: exactly \<open>num_ticks\<close> values, the last one \<open>domain[last]\<close>), as
  numbers, and on a date scale as dates.
\<close>

theorem get_ticks_subsampling:
  "(n < 2 \<longrightarrow> get_ticks a n da = Inr []) \<and>
   (2 \<le> n \<and>
      (if scale_type (axis_scale a) = ''ordinal'' then Some (scale_domain (axis_scale a)) else da)
        = Some arr \<and>
      int (length arr) \<le> n \<longrightarrow>
      get_ticks a n da = Inr arr) \<and>
   (2 \<le> n \<and>
      (if scale_type (axis_scale a) = ''ordinal'' then Some (scale_domain (axis_scale a)) else da)
        = Some arr \<and>
      n < int (length arr) \<and> istep = length arr div nat (n - 1) \<longrightarrow>
      1 \<le> istep \<and>
      get_ticks a n da =
        Inr (map (\<lambda>k. arr ! (k * istep)) [0..<nat \<lceil>real (length arr) / real istep\<rceil>]) \<and>
      (\<forall>k < nat \<lceil>real (length arr) / real istep\<rceil>. k * istep < length arr) \<and>
      length arr \<le> nat \<lceil>real (length arr) / real istep\<rceil> * istep) \<and>
   (2 \<le> n \<and> scale_type (axis_scale a) \<noteq> ''ordinal'' \<and> \<not> is_date_scale (axis_scale a) \<and>
      scale_domain (axis_scale a) \<noteq> [] \<and> hd (scale_domain (axis_scale a)) = Num lo \<and>
      last (scale_domain (axis_scale a)) = Num hi \<and> step = (hi - lo) / real_of_int (n - 1) \<longrightarrow>
      get_ticks a n None = Inr (map Num (range_real lo (hi + step / 2) step)) \<and>
      (lo \<noteq> hi \<longrightarrow>
         get_ticks a n None = Inr (map (\<lambda>k. Num (lo + real k * step)) [0..<nat n]) \<and>
         lo + real_of_int (n - 1) * step = hi)) \<and>
   (2 \<le> n \<and> is_date_scale (axis_scale a) \<and> 2 \<le> length (scale_domain (axis_scale a)) \<and>
      hd (scale_domain (axis_scale a)) = Date tlo \<and> last (scale_domain (axis_scale a)) = Date thi \<and>
      dstep = (real_of_int thi - real_of_int tlo) / real_of_int (n - 1) \<longrightarrow>
      get_ticks a n None =
        Inr (map (\<lambda>elem. Date (js_trunc elem))
               (range_real (real_of_int tlo) (real_of_int thi + dstep / 2) dstep)))"
proof (intro conjI impI; (elim conjE)?)
  show "get_ticks a n da = Inr []" if "n < 2"
    using that by (rule get_ticks_few)
next
  assume "2 \<le> n"
    "(if scale_type (axis_scale a) = ''ordinal'' then Some (scale_domain (axis_scale a)) else da)
        = Some arr"
    "int (length arr) \<le> n"
  then show "get_ticks a n da = Inr arr" by (rule get_ticks_short)
next
  assume h: "2 \<le> n"
    "(if scale_type (axis_scale a) = ''ordinal'' then Some (scale_domain (axis_scale a)) else da)
        = Some arr"
    "n < int (length arr)" "istep = length arr div nat (n - 1)"
  show one: "1 \<le> istep" by (rule get_ticks_long(1) [OF h])
  show "get_ticks a n da =
        Inr (map (\<lambda>k. arr ! (k * istep)) [0..<nat \<lceil>real (length arr) / real istep\<rceil>])"
    by (rule get_ticks_long(2) [OF h])
  show "\<forall>k < nat \<lceil>real (length arr) / real istep\<rceil>. k * istep < length arr"
    by (rule index_count_bounds(1) [OF one])
  show "length arr \<le> nat \<lceil>real (length arr) / real istep\<rceil> * istep"
    by (rule index_count_bounds(2) [OF one])
next
  assume h: "2 \<le> n" "scale_type (axis_scale a) \<noteq> ''ordinal''" "\<not> is_date_scale (axis_scale a)"
    "scale_domain (axis_scale a) \<noteq> []" "hd (scale_domain (axis_scale a)) = Num lo"
    "last (scale_domain (axis_scale a)) = Num hi" "step = (hi - lo) / real_of_int (n - 1)"
  show g: "get_ticks a n None = Inr (map Num (range_real lo (hi + step / 2) step))"
    by (rule get_ticks_ramp [OF h])
  have half: "hi + step / 2 = hi + step * 0.5" by simp
  show "get_ticks a n None = Inr (map (\<lambda>k. Num (lo + real k * step)) [0..<nat n])" if "lo \<noteq> hi"
    unfolding g half range_real_ramp(1) [OF h(1) that h(7)] by (simp add: comp_def)
  show "lo + real_of_int (n - 1) * step = hi" if "lo \<noteq> hi"
    by (rule range_real_ramp(2) [OF h(1) that h(7)])
next
  assume h: "2 \<le> n" "is_date_scale (axis_scale a)" "2 \<le> length (scale_domain (axis_scale a))"
    "hd (scale_domain (axis_scale a)) = Date tlo" "last (scale_domain (axis_scale a)) = Date thi"
    "dstep = (real_of_int thi - real_of_int tlo) / real_of_int (n - 1)"
  show "get_ticks a n None =
        Inr (map (\<lambda>elem. Date (js_trunc elem))
               (range_real (real_of_int tlo) (real_of_int thi + dstep / 2) dstep))"
    by (rule get_ticks_date_ramp [OF h])
qed

theorem get_ticks_subsampling_witness:
  "get_ticks \<lparr>tick_values = None, num_ticks = Some 1,
       axis_scale = \<lparr>scale_type = ''linear'', scale_domain = [Num 0, Num 10], scale_ticks = []\<rparr>\<rparr>
     1 (Some [Num 4]) = Inr [] \<and>
   get_ticks \<lparr>tick_values = None, num_ticks = Some 3,
       axis_scale = \<lparr>scale_type = ''ordinal'', scale_domain = [Str ''a'', Str ''b''], scale_ticks = []\<rparr>\<rparr>
     3 None = Inr [Str ''a'', Str ''b''] \<and>
   get_ticks \<lparr>tick_values = None, num_ticks = Some 4,
       axis_scale = \<lparr>scale_type = ''linear'', scale_domain = [Num 0, Num 10], scale_ticks = []\<rparr>\<rparr>
     4 (Some [Num 0, Num 1, Num 2, Num 3, Num 4, Num 5, Num 6, Num 7, Num 8, Num 9]) =
     Inr [Num 0, Num 3, Num 6, Num 9] \<and>
   get_ticks \<lparr>tick_values = None, num_ticks = Some 5,
       axis_scale = \<lparr>scale_type = ''linear'', scale_domain = [Num 0, Num 10], scale_ticks = []\<rparr>\<rparr>
     5 None = Inr [Num 0, Num (5 / 2), Num 5, Num (15 / 2), Num 10] \<and>
   get_ticks \<lparr>tick_values = None, num_ticks = Some 3,
       axis_scale = \<lparr>scale_type = ''date'', scale_domain = [Date 0, Date 1000], scale_ticks = []\<rparr>\<rparr>
     3 None = Inr [Date 0, Date 500, Date 1000]"
proof (intro conjI)
  show "get_ticks \<lparr>tick_values = None, num_ticks = Some 1,
       axis_scale = \<lparr>scale_type = ''linear'', scale_domain = [Num 0, Num 10], scale_ticks = []\<rparr>\<rparr>
     1 (Some [Num 4]) = Inr []"
    using get_ticks_subsampling [of 1 "\<lparr>tick_values = None, num_ticks = Some 1,
       axis_scale = \<lparr>scale_type = ''linear'', scale_domain = [Num 0, Num 10], scale_ticks = []\<rparr>\<rparr>"
       "Some [Num 4]"]
    by simp
  show "get_ticks \<lparr>tick_values = None, num_ticks = Some 3,
       axis_scale = \<lparr>scale_type = ''ordinal'', scale_domain = [Str ''a'', Str ''b''], scale_ticks = []\<rparr>\<rparr>
     3 None = Inr [Str ''a'', Str ''b'']"
    using get_ticks_subsampling [of 3 "\<lparr>tick_values = None, num_ticks = Some 3,
       axis_scale = \<lparr>scale_type = ''ordinal'', scale_domain = [Str ''a'', Str ''b''], scale_ticks = []\<rparr>\<rparr>"
       None "[Str ''a'', Str ''b'']"]
    by simp
  show "get_ticks \<lparr>tick_values = None, num_ticks = Some 4,
       axis_scale = \<lparr>scale_type = ''linear'', scale_domain = [Num 0, Num 10], scale_ticks = []\<rparr>\<rparr>
     4 (Some [Num 0, Num 1, Num 2, Num 3, Num 4, Num 5, Num 6, Num 7, Num 8, Num 9]) =
     Inr [Num 0, Num 3, Num 6, Num 9]"
    using get_ticks_subsampling [of 4 "\<lparr>tick_values = None, num_ticks = Some 4,
       axis_scale = \<lparr>scale_type = ''linear'', scale_domain = [Num 0, Num 10], scale_ticks = []\<rparr>\<rparr>"
       "Some [Num 0, Num 1, Num 2, Num 3, Num 4, Num 5, Num 6, Num 7, Num 8, Num 9]"
       "[Num 0, Num 1, Num 2, Num 3, Num 4, Num 5, Num 6, Num 7, Num 8, Num 9]" 3]
    by (simp add: upt_rec)
  show "get_ticks \<lparr>tick_values = None, num_ticks = Some 5,
       axis_scale = \<lparr>scale_type = ''linear'', scale_domain = [Num 0, Num 10], scale_ticks = []\<rparr>\<rparr>
     5 None = Inr [Num 0, Num (5 / 2), Num 5, Num (15 / 2), Num 10]"
    using get_ticks_subsampling [of 5 "\<lparr>tick_values = None, num_ticks = Some 5,
       axis_scale = \<lparr>scale_type = ''linear'', scale_domain = [Num 0, Num 10], scale_ticks = []\<rparr>\<rparr>"
       None "[]" 0 0 10 "5 / 2"]
    by (simp add: is_date_scale_def range_real_def upt_rec)
  show "get_ticks \<lparr>tick_values = None, num_ticks = Some 3,
       axis_scale = \<lparr>scale_type = ''date'', scale_domain = [Date 0, Date 1000], scale_ticks = []\<rparr>\<rparr>
     3 None = Inr [Date 0, Date 500, Date 1000]"
    using get_ticks_subsampling [of 3 "\<lparr>tick_values = None, num_ticks = Some 3,
       axis_scale = \<lparr>scale_type = ''date'', scale_domain = [Date 0, Date 1000], scale_ticks = []\<rparr>\<rparr>"
       None "[]" 0 0 0 0 0 1000 500]
    by (simp add: is_date_scale_def range_real_def js_trunc_def upt_rec)
qed

section \<open>Number formats of the ticks\<close>

lemma indexOf_append_first:
  "a \<notin> set xs \<Longrightarrow> indexOf (xs @ a # ys) a = int (length xs)"
  by (induction xs) (auto simp: Let_def)

lemma is_digit_not_dot: "is_digit c \<Longrightarrow> c \<noteq> CHR ''.''"
  by (auto simp: is_digit_def)

lemma is_digit_not_e: "is_digit c \<Longrightarrow> c \<noteq> CHR ''e''"
  by (auto simp: is_digit_def)

lemma strip_numeral:
  assumes fp: "list_all is_digit fp"
  shows "strip_dot (strip_zeros (ip @ ''.'' @ fp)) =
     (if dropWhile (\<lambda>c. c = CHR ''0'') (rev fp) = [] then ip
      else ip @ ''.'' @ rev (dropWhile (\<lambda>c. c = CHR ''0'') (rev fp)))"
proof -
  define D where "D = dropWhile (\<lambda>c. c = CHR ''0'') (rev fp)"
  define Z where "Z = takeWhile (\<lambda>c. c = CHR ''0'') (rev fp)"
  have dig: "\<forall>c \<in> set (rev fp). is_digit c"
    using fp by (simp add: list_all_iff)
  have r: "rev (ip @ ''.'' @ fp) = rev fp @ CHR ''.'' # rev ip" by simp
  have nodot: "\<not> is_digit (CHR ''.'')" by (simp add: is_digit_def)
  have "dropWhile is_digit (rev fp @ CHR ''.'' # rev ip) = dropWhile is_digit (CHR ''.'' # rev ip)"
    using dig by (intro dropWhile_append2) auto
  then have rest: "dropWhile is_digit (rev fp @ CHR ''.'' # rev ip) = CHR ''.'' # rev ip"
    using nodot by simp
  have zs: "takeWhile (\<lambda>c. c = CHR ''0'') (rev fp @ CHR ''.'' # rev ip) = Z"
  proof (cases "\<forall>c \<in> set (rev fp). c = CHR ''0''")
    case True
    then have tw: "takeWhile (\<lambda>c. c = CHR ''0'') (rev fp) = rev fp"
      by (simp only: takeWhile_eq_all_conv)
    have "takeWhile (\<lambda>c. c = CHR ''0'') (rev fp @ CHR ''.'' # rev ip) =
        rev fp @ takeWhile (\<lambda>c. c = CHR ''0'') (CHR ''.'' # rev ip)"
      using True by (intro takeWhile_append2) auto
    then show ?thesis
      unfolding Z_def tw by simp
  next
    case False
    then show ?thesis
      unfolding Z_def by (auto simp: takeWhile_append)
  qed
  have ds: "dropWhile (\<lambda>c. c = CHR ''0'') (rev fp @ CHR ''.'' # rev ip) = D @ CHR ''.'' # rev ip"
    unfolding D_def by (auto simp: dropWhile_append dropWhile_eq_Nil_conv)
  have sz: "strip_zeros (ip @ ''.'' @ fp) =
      (if Z \<noteq> [] then ip @ ''.'' @ rev D else ip @ ''.'' @ fp)"
    unfolding strip_zeros_def Let_def r rest zs ds by simp
  have ZD: "Z @ D = rev fp" unfolding Z_def D_def by simp
  show ?thesis
  proof (cases "D = []")
    case True
    then have "Z = rev fp" using ZD by simp
    then have "fp = rev Z" by (metis rev_rev_ident)
    then show ?thesis
      unfolding sz D_def [symmetric] using True
      by (auto simp: strip_dot_def)
  next
    case False
    then have hd: "hd D \<noteq> CHR ''0''"
      unfolding D_def by (metis (mono_tags, lifting) hd_dropWhile)
    have "hd D \<in> set (rev fp)"
      using False ZD by (metis hd_in_set in_set_conv_decomp list.set_sel(1) set_append Un_iff)
    then have nd: "hd D \<noteq> CHR ''.''"
      using dig is_digit_not_dot by blast
    have lastD: "last (rev D) = hd D" using False by (simp add: last_rev)
    have keep: "strip_dot (ip @ ''.'' @ rev D) = ip @ ''.'' @ rev D"
      using False nd lastD by (simp add: strip_dot_def)
    show ?thesis
    proof (cases "Z = []")
      case True
      then have "rev D = fp" using ZD by (metis append_Nil rev_rev_ident)
      then show ?thesis
        unfolding sz D_def [symmetric] using True False keep by simp
    next
      case nz: False
      then show ?thesis
        unfolding sz D_def [symmetric] using False keep by simp
    qed
  qed
qed

lemma replace_trailing_zeros_numeral:
  assumes "CHR ''e'' \<notin> set ip" and "list_all is_digit fp"
  shows "replace_trailing_zeros (ip @ ''.'' @ fp) = trim_fraction ip fp"
    and "replace_trailing_zeros (ip @ ''.'' @ fp @ CHR ''e'' # ex) = trim_fraction ip fp @ CHR ''e'' # ex"
proof -
  have "CHR ''e'' \<notin> set fp"
    using assms(2) is_digit_not_e by (auto simp: list_all_iff)
  then have noe: "CHR ''e'' \<notin> set (ip @ ''.'' @ fp)"
    using assms(1) by simp
  then have "indexOf (ip @ ''.'' @ fp) (CHR ''e'') = - 1"
    by (rule indexOf_absent [THEN iffD2])
  then show "replace_trailing_zeros (ip @ ''.'' @ fp) = trim_fraction ip fp"
    unfolding replace_trailing_zeros_def Let_def trim_fraction_def
    by (simp only: strip_numeral [OF assms(2)] simp_thms if_False)
  have "indexOf ((ip @ ''.'' @ fp) @ CHR ''e'' # ex) (CHR ''e'') = int (length (ip @ ''.'' @ fp))"
    using noe by (rule indexOf_append_first)
  then have ix: "indexOf (ip @ ''.'' @ fp @ CHR ''e'' # ex) (CHR ''e'') = int (length (ip @ ''.'' @ fp))"
    by simp
  have tk: "take (length (ip @ ''.'' @ fp)) (ip @ ''.'' @ fp @ CHR ''e'' # ex) = ip @ ''.'' @ fp"
    "drop (length (ip @ ''.'' @ fp)) (ip @ ''.'' @ fp @ CHR ''e'' # ex) = CHR ''e'' # ex"
    by simp_all
  have ne: "int (length (ip @ ''.'' @ fp)) \<noteq> - 1" by linarith
  show "replace_trailing_zeros (ip @ ''.'' @ fp @ CHR ''e'' # ex) = trim_fraction ip fp @ CHR ''e'' # ex"
    unfolding replace_trailing_zeros_def Let_def ix nat_int tk trim_fraction_def
    by (simp only: strip_numeral [OF assms(2)] ne simp_thms if_True)
qed

lemma digit_char_is_digit: "d < 10 \<Longrightarrow> is_digit (digit_char d)"
proof -
  assume "d < 10"
  then have "d \<in> {0, 1, 2, 3, 4, 5, 6, 7, 8, 9}" by auto
  then show ?thesis
    by (auto simp: digit_char_def is_digit_def)
qed

lemma digits_of_nat_digits: "list_all is_digit (digits_of_nat m)"
proof (induction m rule: digits_of_nat.induct)
  case (1 m)
  show ?case
  proof (cases "m < 10")
    case True
    then show ?thesis
      by (subst digits_of_nat.simps) (simp add: digit_char_is_digit)
  next
    case False
    then show ?thesis
      using "1.IH" by (subst digits_of_nat.simps) (simp add: digit_char_is_digit)
  qed
qed

lemma digits_of_nat_length: "10 ^ k \<le> m \<Longrightarrow> k < length (digits_of_nat m)"
proof (induction k arbitrary: m)
  case 0
  show ?case by (subst digits_of_nat.simps) simp
next
  case (Suc k)
  have "(1::nat) \<le> 10 ^ k" by simp
  then have "(10::nat) \<le> 10 * 10 ^ k" by simp
  moreover from Suc.prems have "10 * 10 ^ k \<le> m" by simp
  ultimately have ten: "\<not> m < 10" by linarith
  from Suc.prems have "10 ^ k * 10 \<le> m" by (simp add: mult.commute)
  then have "10 ^ k \<le> m div 10" by (simp only: less_eq_div_iff_mult_less_eq zero_less_numeral)
  then have "k < length (digits_of_nat (m div 10))" by (rule Suc.IH)
  then show ?case
    using ten by (subst digits_of_nat.simps) simp
qed

lemma integer_format_digits:
  assumes "1000000 \<le> js_round number"
  shows "7 \<le> length (filter is_digit (get_format_func d3_format (Some 0) number))"
proof -
  have nn: "\<not> js_round number < 0" using assms by simp
  have "(10::nat) ^ 6 \<le> nat (js_round number)" using assms by simp
  then have "6 < length (digits_of_nat (nat (js_round number)))"
    by (rule digits_of_nat_length)
  moreover have "filter is_digit (digits_of_nat (nat (js_round number))) =
      digits_of_nat (nat (js_round number))"
    using digits_of_nat_digits [of "nat (js_round number)"]
    by (simp add: list_all_iff)
  ultimately show ?thesis
    using nn by (simp add: get_format_func_def d3_format_d_def string_of_int_def)
qed

lemma linear_scale_precision_integer:
  assumes "2 \<le> length ticks" and "1 \<le> \<bar>ticks ! 1 - ticks ! 0\<bar>"
    and "max \<bar>ticks ! 0\<bar> \<bar>ticks ! (length ticks - 1)\<bar> = 0 \<or>
         1 / 10 \<le> max \<bar>ticks ! 0\<bar> \<bar>ticks ! (length ticks - 1)\<bar>"
    and "max \<bar>ticks ! 0\<bar> \<bar>ticks ! (length ticks - 1)\<bar> < 1000000"
  shows "linear_scale_precision ticks = Some 0"
proof -
  define m where "m = max \<bar>ticks ! 0\<bar> \<bar>ticks ! (length ticks - 1)\<bar>"
  define d where "d = \<bar>ticks ! 1 - ticks ! 0\<bar>"
  have len: "\<not> length ticks < 2" using assms(1) by simp
  have m0: "0 \<le> m" by (simp add: m_def)
  have dd: "0 < get_digits d"
    using assms(2) by (simp add: get_digits_pos_iff d_def)
  have md0: "0 \<le> get_digits m"
    using assms(3) m0 unfolding m_def [symmetric] by (simp add: get_digits_nonneg_iff)
  have md6: "get_digits m \<le> 6"
    using assms(4) m0 unfolding m_def [symmetric] by (simp add: get_digits_le6_iff)
  show ?thesis
    unfolding linear_scale_precision_def Let_def if_not_P [OF len] m_def [symmetric]
      d_def [symmetric]
    using dd md0 md6 by simp
qed

lemma sorted_max_bound:
  fixes ticks :: "real list"
  assumes "2 \<le> length ticks" and "sorted ticks" and "1 \<le> ticks ! 1 - ticks ! 0"
  shows "1 / 10 \<le> max \<bar>ticks ! 0\<bar> \<bar>ticks ! (length ticks - 1)\<bar>"
proof -
  have "ticks ! 1 \<le> ticks ! (length ticks - 1)"
    using assms(1,2) by (intro sorted_nth_mono) auto
  then have "1 \<le> \<bar>ticks ! 0\<bar> + \<bar>ticks ! (length ticks - 1)\<bar>"
    using assms(3) by linarith
  then show ?thesis by (simp add: max_def split: if_splits)
qed

text \<open>
  C3, as amended. With \<open>prec = 0\<close> the formatter returned by \<^verbatim>\<open>get_format_func\<close> prints the
  number rounded to an integer in the "d" format, with all the digits of that integer (seven
  or more from 1000000 on: the integer branch has no cap). Otherwise it formats with "g";
  when that string stripped of \<open>-\<close>, \<open>.\<close> and \<open>e\<close> has fewer than 6 characters it is returned,
  else the number is formatted exponentially, the generic format falling back to ".6e" when
  the whole exponential string has length at least 7; in each case the result goes through
  \<^verbatim>\<open>_replace_trailing_zeros\<close>, which on a mantissa of an integer part, a point and fraction
  digits removes the zeros that end the fraction (and the point when nothing is left), before
  the exponent if there is one. For every tick list of at least two ticks with a tick gap of
  at least 1 whose larger end-point magnitude is below 1000000 and is 0 or at least 0.1 (as it
  is for every sorted list), \<^verbatim>\<open>_linear_scale_precision\<close> returns 0, so that linear ticks are
  formatted as integers.
\<close>

theorem get_format_func_formats:
  "get_format_func d3_format (Some 0) number = d3_format_d (js_round number) \<and>
   (1000000 \<le> js_round number \<longrightarrow>
      7 \<le> length (filter is_digit (get_format_func d3_format (Some 0) number))) \<and>
   (prec \<noteq> Some 0 \<and> fmt = (if prec = Some (- 1) then [] else ''.'' @ js_string prec) \<and>
      length (filter (\<lambda>c. c \<notin> set ''-.eE'') (d3_format (fmt @ ''g'') number)) < 6 \<longrightarrow>
      get_format_func d3_format prec number = replace_trailing_zeros (d3_format (fmt @ ''g'') number)) \<and>
   (6 \<le> length (filter (\<lambda>c. c \<notin> set ''-.eE'') (d3_format ''g'' number)) \<longrightarrow>
      get_format_func d3_format (Some (- 1)) number =
        replace_trailing_zeros
          (if 7 \<le> length (d3_format ''e'' number) then d3_format ''.6e'' number
           else d3_format ''e'' number)) \<and>
   (prec \<noteq> Some 0 \<and> prec \<noteq> Some (- 1) \<and> fmt = ''.'' @ js_string prec \<and>
      6 \<le> length (filter (\<lambda>c. c \<notin> set ''-.eE'') (d3_format (fmt @ ''g'') number)) \<longrightarrow>
      get_format_func d3_format prec number = replace_trailing_zeros (d3_format (fmt @ ''e'') number)) \<and>
   (CHR ''e'' \<notin> set ip \<and> list_all is_digit fp \<longrightarrow>
      replace_trailing_zeros (ip @ ''.'' @ fp) = trim_fraction ip fp \<and>
      replace_trailing_zeros (ip @ ''.'' @ fp @ CHR ''e'' # ex) = trim_fraction ip fp @ CHR ''e'' # ex) \<and>
   (2 \<le> length ticks \<and> 1 \<le> \<bar>ticks ! 1 - ticks ! 0\<bar> \<and>
      (max \<bar>ticks ! 0\<bar> \<bar>ticks ! (length ticks - 1)\<bar> = 0 \<or>
       1 / 10 \<le> max \<bar>ticks ! 0\<bar> \<bar>ticks ! (length ticks - 1)\<bar>) \<and>
      max \<bar>ticks ! 0\<bar> \<bar>ticks ! (length ticks - 1)\<bar> < 1000000 \<longrightarrow>
      linear_scale_precision ticks = Some 0 \<and>
      linear_sc_format d3_format ticks number = d3_format_d (js_round number)) \<and>
   (2 \<le> length ticks \<and> sorted ticks \<and> 1 \<le> ticks ! 1 - ticks ! 0 \<and>
      max \<bar>ticks ! 0\<bar> \<bar>ticks ! (length ticks - 1)\<bar> < 1000000 \<longrightarrow>
      linear_scale_precision ticks = Some 0)"
proof (intro conjI impI; (elim conjE)?)
  show int: "get_format_func d3_format (Some 0) number = d3_format_d (js_round number)"
    by (simp add: get_format_func_def)
  show "7 \<le> length (filter is_digit (get_format_func d3_format (Some 0) number))"
    if "1000000 \<le> js_round number"
    using that by (rule integer_format_digits)
next
  assume "prec \<noteq> Some 0" "fmt = (if prec = Some (- 1) then [] else ''.'' @ js_string prec)"
    "length (filter (\<lambda>c. c \<notin> set ''-.eE'') (d3_format (fmt @ ''g'') number)) < 6"
  then show "get_format_func d3_format prec number =
      replace_trailing_zeros (d3_format (fmt @ ''g'') number)"
    by (simp add: get_format_func_def Let_def)
next
  assume "6 \<le> length (filter (\<lambda>c. c \<notin> set ''-.eE'') (d3_format ''g'' number))"
  then show "get_format_func d3_format (Some (- 1)) number =
        replace_trailing_zeros
          (if 7 \<le> length (d3_format ''e'' number) then d3_format ''.6e'' number
           else d3_format ''e'' number)"
    by (simp add: get_format_func_def Let_def)
next
  assume "prec \<noteq> Some 0" "prec \<noteq> Some (- 1)" "fmt = ''.'' @ js_string prec"
    "6 \<le> length (filter (\<lambda>c. c \<notin> set ''-.eE'') (d3_format (fmt @ ''g'') number))"
  then show "get_format_func d3_format prec number =
      replace_trailing_zeros (d3_format (fmt @ ''e'') number)"
    by (simp add: get_format_func_def Let_def)
next
  assume h: "CHR ''e'' \<notin> set ip" "list_all is_digit fp"
  show "replace_trailing_zeros (ip @ ''.'' @ fp) = trim_fraction ip fp"
    by (rule replace_trailing_zeros_numeral(1) [OF h])
  show "replace_trailing_zeros (ip @ ''.'' @ fp @ CHR ''e'' # ex) = trim_fraction ip fp @ CHR ''e'' # ex"
    by (rule replace_trailing_zeros_numeral(2) [OF h])
next
  assume h: "2 \<le> length ticks" "1 \<le> \<bar>ticks ! 1 - ticks ! 0\<bar>"
    "max \<bar>ticks ! 0\<bar> \<bar>ticks ! (length ticks - 1)\<bar> = 0 \<or>
       1 / 10 \<le> max \<bar>ticks ! 0\<bar> \<bar>ticks ! (length ticks - 1)\<bar>"
    "max \<bar>ticks ! 0\<bar> \<bar>ticks ! (length ticks - 1)\<bar> < 1000000"
  show p: "linear_scale_precision ticks = Some 0"
    by (rule linear_scale_precision_integer [OF h])
  show "linear_sc_format d3_format ticks number = d3_format_d (js_round number)"
    by (simp add: linear_sc_format_def p get_format_func_def)
next
  assume h: "2 \<le> length ticks" "sorted ticks" "1 \<le> ticks ! 1 - ticks ! 0"
    "max \<bar>ticks ! 0\<bar> \<bar>ticks ! (length ticks - 1)\<bar> < 1000000"
  have "1 \<le> \<bar>ticks ! 1 - ticks ! 0\<bar>" using h(3) by linarith
  moreover have "1 / 10 \<le> max \<bar>ticks ! 0\<bar> \<bar>ticks ! (length ticks - 1)\<bar>"
    by (rule sorted_max_bound [OF h(1,2,3)])
  ultimately show "linear_scale_precision ticks = Some 0"
    using h(1,4) by (intro linear_scale_precision_integer) auto
qed

theorem get_format_func_formats_witness:
  "get_format_func sample_format (Some 0) (5 / 2) = ''3'' \<and>
   get_format_func sample_format (Some 3) 12 = ''12'' \<and>
   get_format_func sample_format (Some (- 1)) 1234567 = ''1.234567e+6'' \<and>
   get_format_func sample_format (Some 7) 1234567 = ''1.234567e+6'' \<and>
   replace_trailing_zeros ''1.500'' = ''1.5'' \<and>
   replace_trailing_zeros ''2.000e-7'' = ''2e-7'' \<and>
   linear_scale_precision [0, 250, 500] = Some 0 \<and>
   linear_sc_format sample_format [0, 250, 500] 250 = ''250''"
proof (intro conjI)
  show "get_format_func sample_format (Some 0) (5 / 2) = ''3''"
    using get_format_func_formats [of sample_format "5 / 2", THEN conjunct1]
    by (simp add: d3_format_d_def string_of_int_def js_round_def digits_of_nat.simps digit_char_def)
  show "get_format_func sample_format (Some 3) 12 = ''12''"
    using get_format_func_formats [of sample_format 12 "Some 3" "''.3''" "''12''" "''0''" "[]"]
    by (simp add: js_string_def string_of_int_def digits_of_nat.simps digit_char_def
        sample_format_def is_digit_def trim_fraction_def)
  show "get_format_func sample_format (Some (- 1)) 1234567 = ''1.234567e+6''"
    using get_format_func_formats [of sample_format 1234567 "Some (- 1)" "[]" "''1''" "''234567''" "''+6''"]
    by (simp add: sample_format_def is_digit_def trim_fraction_def)
  show "get_format_func sample_format (Some 7) 1234567 = ''1.234567e+6''"
    using get_format_func_formats [of sample_format 1234567 "Some 7" "''.7''" "''1''" "''2345670''" "''+6''"]
    by (simp add: js_string_def string_of_int_def digits_of_nat.simps digit_char_def
        sample_format_def is_digit_def trim_fraction_def)
  show "replace_trailing_zeros ''1.500'' = ''1.5''"
    using get_format_func_formats [of sample_format 0 "Some 0" "[]" "''1''" "''500''" "[]"]
    by (simp add: is_digit_def trim_fraction_def)
  show "replace_trailing_zeros ''2.000e-7'' = ''2e-7''"
    using get_format_func_formats [of sample_format 0 "Some 0" "[]" "''2''" "''000''" "''-7''"]
    by (simp add: is_digit_def trim_fraction_def)
  show "linear_scale_precision [0, 250, 500] = Some 0"
    using get_format_func_formats [of sample_format 250 "Some 0" "[]" "[]" "[]" "[]" "[0, 250, 500]"]
    by simp
  show "linear_sc_format sample_format [0, 250, 500] 250 = ''250''"
    using get_format_func_formats [of sample_format 250 "Some 0" "[]" "[]" "[]" "[]" "[0, 250, 500]"]
    by (simp add: d3_format_d_def string_of_int_def js_round_def digits_of_nat.simps digit_char_def)
qed

text \<open>
  The claim as stated fails on both counts: the integer branch prints 1234567 with seven
  digits, and on the unsorted ticks 0.01, 7, 0.02 (gap at least 1, end points with no integer
  digit) \<^verbatim>\<open>_linear_scale_precision\<close> falls through instead of returning 0.
\<close>

theorem significant_digit_cap_counterexample:
  "get_format_func no_format (Some 0) 1234567 = ''1234567'' \<and>
   length (filter is_digit (get_format_func no_format (Some 0) 1234567)) = 7 \<and>
   linear_scale_precision [1 / 100, 7, 1 / 50] = None"
proof -
  have r: "js_round 1234567 = 1234567" by (simp add: js_round_def)
  have g: "get_format_func no_format (Some 0) 1234567 = ''1234567''"
    by (simp add: get_format_func_def d3_format_d_def string_of_int_def r
        digits_of_nat.simps digit_char_def)
  have "linear_scale_precision [1 / 100, 7, 1 / 50] = None"
    by (subst linear_scale_precision_None_iff) simp_all
  then show ?thesis
    unfolding g by (simp add: is_digit_def)
qed

end
